theory Spec2Isabelle
  imports Complex_Main "HOL-Library.AList"
begin

section \<open>Data model\<close>

text \<open>
  The embedding follows \<^verbatim>\<open>src/dist/plastron.js\<close>, the build of the admission engine
  that the claims cite, with the field names of \<^verbatim>\<open>src/src/types.ts\<close>.

  Scores, thresholds, counters and timestamps are \<open>int\<close> (the data model of the
  specification calls them integers; a double holds every integer up to \<open>2 ^ 53\<close> in
  magnitude exactly). The punishment curve divides, subtracts and multiplies
  fractions, and JavaScript rounds each of these operations to a double: the model
  rounds them in the same places, with \<open>fl\<close> below. The two rate estimates and a
  random draw are \<open>rat\<close>, computed exactly.
\<close>

record IpData =
  ip :: string
  index :: nat
  lastSeenMs :: int
  points :: int
  connections :: int
  reqInCurrentMin :: int
  reqInPrevMin :: int
  reqInCurrent10Sec :: int
  reqInPrev10Sec :: int

text \<open>
  \<^verbatim>\<open>PlastronOptions\<close> after the defaults have been merged in (lines 174-178).
  \<open>ipMonitorSize\<close> is a \<open>nat\<close>: \<^verbatim>\<open>new Array(n)\<close> throws for every other number.
  The clock \<^verbatim>\<open>nowFn\<close> is not a field; each reading of it is an argument of the
  operation that reads it.
\<close>

record PlastronOptions =
  ipMonitorSize :: nat
  maxRequestRatePerSec :: int
  maxRequestNegativeIPperSec :: int
  maxSimultanousConnectionsPerIP :: int
  maxSimultanousConnectionsNegativePerIP :: int
  maxReqPerSecPerIP :: int
  maxReqNegativePerSecPerIP :: int
  rateLimitMessage :: string
  ipSlowDownStartsAt :: int
  ipSlowDownMaxS :: int
  ipSlowDownMaxPunishmentAt :: int
  excessiveReqPerS :: int
  excessiveReqPerMin :: int
  pointsForExcessiveRequest :: int
  pointsFor20x :: int
  pointsFor30x :: int
  pointsFor400 :: int
  pointsFor401 :: int
  pointsFor404 :: int
  pointsFor40x :: int
  pointsFor50x :: int

text \<open>The \<^verbatim>\<open>globalStats\<close> object of lines 182-188.\<close>

record GlobalStats =
  reqInCurrentSec :: int
  reqInPrevSec :: int
  prevSecStartMs :: int
  currentSecStartMs :: int
  negativeReqInCurrentSec :: int

text \<open>
  \<^verbatim>\<open>defaultOptions\<close> (lines 5-27) merged with a caller who sets only the required
  message.
\<close>

definition defaultOptions :: "string \<Rightarrow> PlastronOptions" where
  "defaultOptions msg =
     \<lparr> ipMonitorSize = 1000,
       maxRequestRatePerSec = 0,
       maxRequestNegativeIPperSec = 0,
       maxSimultanousConnectionsPerIP = 25,
       maxSimultanousConnectionsNegativePerIP = 10,
       maxReqPerSecPerIP = 30,
       maxReqNegativePerSecPerIP = 10,
       rateLimitMessage = msg,
       ipSlowDownStartsAt = - 100000,
       ipSlowDownMaxS = 5000,
       ipSlowDownMaxPunishmentAt = - 500000,
       excessiveReqPerS = 50,
       excessiveReqPerMin = 200,
       pointsForExcessiveRequest = - 100,
       pointsFor20x = 1,
       pointsFor30x = 0,
       pointsFor400 = - 10000,
       pointsFor401 = - 10000,
       pointsFor404 = - 100,
       pointsFor40x = - 10,
       pointsFor50x = - 20 \<rparr>"

section \<open>Client address\<close>

text \<open>
  The part of an Express request that \<^verbatim>\<open>getClientIp\<close> reads. A missing property is
  \<open>None\<close>; \<^verbatim>\<open>||\<close> also skips the empty string, the only falsy string.
\<close>

record Socket =
  remoteAddress :: "string option"

record Request =
  req_ip :: "string option"
  socket :: "Socket option"

definition truthy :: "string option \<Rightarrow> bool" where
  "truthy v = (case v of None \<Rightarrow> False | Some s \<Rightarrow> s \<noteq> [])"

definition getClientIp :: "Request \<Rightarrow> string" where
  "getClientIp req =
     (if truthy (req_ip req) then the (req_ip req)
      else case socket req of
             None \<Rightarrow> ''*error*''
           | Some sk \<Rightarrow>
               if truthy (remoteAddress sk) then the (remoteAddress sk) else ''*error*'')"

section \<open>Window tracker\<close>

text \<open>
  \<^verbatim>\<open>Math.ceil(t / period)\<close> on an integer timestamp, computed with integer division
  (lemma \<open>boundary_ceiling\<close> below).
\<close>

definition boundary :: "int \<Rightarrow> int \<Rightarrow> int" where
  "boundary period t = - ((- t) div period)"

text \<open>Lines 38-59. The record is mutated in place; the model returns the new record.\<close>

definition updateTimeWindows :: "IpData \<Rightarrow> int \<Rightarrow> IpData" where
  "updateTimeWindows ipData nowMs =
     (let currentMin = boundary 60000 nowMs;
          current10Sec = boundary 10000 nowMs;
          lastMin = boundary 60000 (lastSeenMs ipData);
          last10Sec = boundary 10000 (lastSeenMs ipData);
          d1 = (if currentMin \<noteq> lastMin
                then (if currentMin = lastMin + 1
                      then ipData\<lparr>reqInPrevMin := reqInCurrentMin ipData\<rparr>
                      else ipData\<lparr>reqInPrevMin := 0\<rparr>) \<lparr>reqInCurrentMin := 0\<rparr>
                else ipData)
      in if current10Sec \<noteq> last10Sec
         then (if current10Sec = last10Sec + 1
               then d1\<lparr>reqInPrev10Sec := reqInCurrent10Sec d1\<rparr>
               else d1\<lparr>reqInPrev10Sec := 0\<rparr>) \<lparr>reqInCurrent10Sec := 0\<rparr>
         else d1)"

text \<open>Lines 60-70.\<close>

definition updateGlobalStats :: "GlobalStats \<Rightarrow> int \<Rightarrow> GlobalStats" where
  "updateGlobalStats g nowMs =
     (let currentSec = boundary 1000 nowMs;
          prevSec = boundary 1000 (prevSecStartMs g)
      in if currentSec \<noteq> prevSec
         then g\<lparr> reqInPrevSec := reqInCurrentSec g,
                 reqInCurrentSec := 0,
                 negativeReqInCurrentSec := 0,
                 prevSecStartMs := currentSecStartMs g,
                 currentSecStartMs := nowMs \<rparr>
         else g)"

text \<open>Lines 71-74 and 75-77: the two rate estimates.\<close>

definition calculateCurrentReqPerSec :: "GlobalStats \<Rightarrow> int \<Rightarrow> rat" where
  "calculateCurrentReqPerSec g nowMs =
     (let timeSincePrevSec = max 1 (rat_of_int (nowMs - prevSecStartMs g) / 1000)
      in rat_of_int (reqInCurrentSec g + reqInPrevSec g) / timeSincePrevSec)"

definition calculate10SecReqPerSec :: "IpData \<Rightarrow> rat" where
  "calculate10SecReqPerSec ipData =
     rat_of_int (reqInCurrent10Sec ipData + reqInPrev10Sec ipData) / 10"

section \<open>Double arithmetic\<close>

text \<open>
  A JavaScript number is an IEEE 754 double: 53 significant bits. Each of \<^verbatim>\<open>+\<close>,
  \<^verbatim>\<open>-\<close>, \<^verbatim>\<open>*\<close> and \<^verbatim>\<open>/\<close> returns the exact result rounded to the nearest double, and
  of two doubles equally near the one whose last bit is 0. \<open>fl x\<close> is the exact result
  \<open>x\<close> so rounded: between \<open>2 ^ 52\<close> and \<open>2 ^ 53\<close> the doubles are the integers, so a
  number there is rounded to the nearest integer, a tie to the even one
  (\<open>roundHalfEven\<close>); any other number is first scaled into that range by a power of
  two, which changes no significant bit, and scaled back afterwards. The exponent
  range of a double is not modelled: the code overflows to \<^verbatim>\<open>Infinity\<close> above
  \<open>2 ^ 1024\<close> and loses bits below \<open>2 ^ - 1022\<close>, \<open>fl\<close> does neither.
\<close>

definition roundHalfEven :: "rat \<Rightarrow> int" where
  "roundHalfEven x =
     (let f = \<lfloor>x\<rfloor>; d = x - rat_of_int f
      in if d < 1 / 2 then f
         else if 1 / 2 < d then f + 1
         else if even f then f else f + 1)"

text \<open>The number of scaling steps that \<open>fl\<close> has left, for its termination proof.\<close>

definition fl_rank :: "rat \<Rightarrow> int" where
  "fl_rank a =
     (if 4503599627370496 \<le> a then \<lfloor>a\<rfloor>
      else 9007199254740992 + \<lceil>9007199254740992 / a\<rceil>)"

definition fl_measure :: "rat \<Rightarrow> nat" where
  "fl_measure x = nat (fl_rank \<bar>x\<bar>) + (if x < 0 then 1 else 0)"

function fl :: "rat \<Rightarrow> rat" where
  "fl x =
     (if x = 0 then 0
      else if x < 0 then - fl (- x)
      else if 9007199254740992 \<le> x then 2 * fl (x / 2)
      else if x < 4503599627370496 then fl (2 * x) / 2
      else rat_of_int (roundHalfEven x))"
  by pat_completeness auto

termination fl
proof (relation "measure fl_measure")
  show "wf (measure fl_measure)" by simp
next
  fix x :: rat
  assume a: "x \<noteq> 0" "x < 0"
  then show "(- x, x) \<in> measure fl_measure"
    by (simp add: fl_measure_def)
next
  fix x :: rat
  assume a: "x \<noteq> 0" "\<not> x < 0" "9007199254740992 \<le> x"
  have "x / 2 \<le> x - 1" using a by simp
  then have "\<lfloor>x / 2\<rfloor> \<le> \<lfloor>x - 1\<rfloor>" by (rule floor_mono)
  then have h: "\<lfloor>x / 2\<rfloor> < \<lfloor>x\<rfloor>" by simp
  have p: "0 < \<lfloor>x\<rfloor>" using a by simp
  have r1: "fl_rank (x / 2) = \<lfloor>x / 2\<rfloor>" using a by (simp add: fl_rank_def)
  have r2: "fl_rank x = \<lfloor>x\<rfloor>" using a by (simp add: fl_rank_def)
  have "fl_rank (x / 2) < fl_rank x"
    unfolding r1 r2 by (rule h)
  moreover have "0 < fl_rank x"
    unfolding r2 by (rule p)
  ultimately show "(x / 2, x) \<in> measure fl_measure"
    using a by (simp add: fl_measure_def)
next
  fix x :: rat
  assume a: "x \<noteq> 0" "\<not> x < 0" "\<not> 9007199254740992 \<le> x" "x < 4503599627370496"
  then have pos: "0 < x" by simp
  have c: "0 < \<lceil>9007199254740992 / x\<rceil>"
    using pos by simp
  have r2: "fl_rank x = 9007199254740992 + \<lceil>9007199254740992 / x\<rceil>"
    using a by (simp add: fl_rank_def)
  have add_pos: "i < k \<Longrightarrow> 0 < j \<Longrightarrow> i < k + j" for i j k :: int
    by linarith
  have less: "fl_rank (2 * x) < fl_rank x"
  proof (cases "4503599627370496 \<le> 2 * x")
    case True
    have "2 * x < 9007199254740992" using a by simp
    then have f: "\<lfloor>2 * x\<rfloor> < 9007199254740992" by (simp add: floor_less_iff)
    have r1: "fl_rank (2 * x) = \<lfloor>2 * x\<rfloor>" using True by (simp add: fl_rank_def)
    show ?thesis
      unfolding r1 r2 using f c by (rule add_pos)
  next
    case False
    have "9007199254740992 / x / 2 \<le> 9007199254740992 / x - 1"
      using a pos by (simp add: field_simps)
    then have "\<lceil>9007199254740992 / x / 2\<rceil> \<le> \<lceil>9007199254740992 / x - 1\<rceil>"
      by (rule ceiling_mono)
    then have "\<lceil>9007199254740992 / x / 2\<rceil> < \<lceil>9007199254740992 / x\<rceil>"
      by simp
    moreover have "9007199254740992 / x / 2 = 9007199254740992 / (2 * x)"
      by simp
    ultimately have h: "\<lceil>9007199254740992 / (2 * x)\<rceil> < \<lceil>9007199254740992 / x\<rceil>"
      by simp
    have r1: "fl_rank (2 * x) = 9007199254740992 + \<lceil>9007199254740992 / (2 * x)\<rceil>"
      using False by (simp add: fl_rank_def)
    show ?thesis
      unfolding r1 r2 using h by (simp only: add_less_cancel_left)
  qed
  have "(0::int) < 9007199254740992" by simp
  then have "0 < fl_rank x"
    unfolding r2 using c by (rule add_pos)
  with less show "(2 * x, x) \<in> measure fl_measure"
    using pos by (simp add: fl_measure_def)
qed

declare fl.simps [simp del]

section \<open>Punishment curve\<close>

text \<open>
  Lines 130-132 and, again, 139-141. \<^verbatim>\<open>position / range\<close> is a JavaScript quotient,
  rounded to a double. For \<open>range = 0\<close> it is \<^verbatim>\<open>Infinity\<close> (both callers come here with
  \<open>points < ipSlowDownStartsAt\<close>, hence \<open>position > 0\<close>), and \<^verbatim>\<open>Math.min(1, Infinity)\<close>
  is 1. HOL's \<open>x / 0 = 0\<close> would say otherwise, so the case is written out.
\<close>

definition slowdownRatio :: "int \<Rightarrow> PlastronOptions \<Rightarrow> rat" where
  "slowdownRatio pts options =
     (let range = ipSlowDownStartsAt options - ipSlowDownMaxPunishmentAt options;
          position = max 0 (ipSlowDownStartsAt options - pts)
      in if range = 0 then 1
         else min 1 (fl (rat_of_int position / rat_of_int range)))"

text \<open>Lines 126-134: \<^verbatim>\<open>ratio * options.ipSlowDownMaxS\<close> is one rounded product.\<close>

definition calculateSlowdown :: "int \<Rightarrow> PlastronOptions \<Rightarrow> rat" where
  "calculateSlowdown pts options =
     (if pts \<ge> ipSlowDownStartsAt options then 0
      else max 100 (fl (slowdownRatio pts options * rat_of_int (ipSlowDownMaxS options))))"

text \<open>
  Lines 135-143: \<^verbatim>\<open>baseMax * (1 - ratio)\<close> is a rounded difference and then a rounded
  product; \<^verbatim>\<open>Math.floor\<close> is exact.
\<close>

definition calculateMaxConnections :: "int \<Rightarrow> PlastronOptions \<Rightarrow> int" where
  "calculateMaxConnections pts options =
     (let baseMax = (if pts \<ge> 0 then maxSimultanousConnectionsPerIP options
                     else maxSimultanousConnectionsNegativePerIP options)
      in if pts \<ge> ipSlowDownStartsAt options then baseMax
         else max 1 \<lfloor>fl (rat_of_int baseMax * fl (1 - slowdownRatio pts options))\<rfloor>)"

section \<open>Scoring\<close>

text \<open>Lines 144-160 and 161-170.\<close>

definition calculatePoints :: "int \<Rightarrow> PlastronOptions \<Rightarrow> int" where
  "calculatePoints statusCode options =
     (if statusCode \<ge> 200 \<and> statusCode < 300 then pointsFor20x options
      else if statusCode \<ge> 300 \<and> statusCode < 400 then pointsFor30x options
      else if statusCode = 400 then pointsFor400 options
      else if statusCode = 401 then pointsFor401 options
      else if statusCode = 404 then pointsFor404 options
      else if statusCode \<ge> 400 \<and> statusCode < 500 then pointsFor40x options
      else if statusCode \<ge> 500 \<and> statusCode < 600 then pointsFor50x options
      else 0)"

definition checkExcessiveUsage :: "IpData \<Rightarrow> PlastronOptions \<Rightarrow> int" where
  "checkExcessiveUsage ipData options =
     (let reqPer10Sec = calculate10SecReqPerSec ipData;
          penalty = (if reqPer10Sec > rat_of_int (excessiveReqPerS options)
                     then pointsForExcessiveRequest options else 0);
          reqPerMin = rat_of_int (reqInCurrentMin ipData + reqInPrevMin ipData) / 60
      in if reqPerMin > rat_of_int (excessiveReqPerMin options)
         then penalty + pointsForExcessiveRequest options
         else penalty)"

section \<open>Reputation table\<close>

text \<open>
  The closure state of \<^verbatim>\<open>createPlastron\<close> (lines 174-188). The JavaScript \<^verbatim>\<open>Map\<close>
  holds references to record objects, and the completion hook of an admitted request
  keeps its reference after the address has been evicted. So the model has an object
  store: \<open>ipData\<close> maps an address to the position of its record in \<open>store\<close>, in
  insertion order as the \<^verbatim>\<open>Map\<close> does, and a record that is no longer in the map
  stays in the store. \<^verbatim>\<open>ipData.size\<close> is the length of the association list.
\<close>

record Plastron =
  opts :: PlastronOptions
  monitoredIps :: "string option list"
  ipData :: "(string \<times> nat) list"
  store :: "IpData list"
  globalStats :: GlobalStats

text \<open>
  Array reads and writes: a read beyond the end is \<^verbatim>\<open>undefined\<close>, a write beyond the
  end extends the array (the holes read as \<^verbatim>\<open>undefined\<close>).
\<close>

definition js_get :: "string option list \<Rightarrow> nat \<Rightarrow> string option" where
  "js_get xs i = (if i < length xs then xs ! i else None)"

definition js_set :: "string option list \<Rightarrow> nat \<Rightarrow> string option \<Rightarrow> string option list" where
  "js_set xs i v =
     (if i < length xs then xs[i := v]
      else xs @ replicate (i - length xs) None @ [v])"

text \<open>
  \<^verbatim>\<open>Math.random()\<close> is an input: \<open>rnd k\<close> is the value of the \<open>k\<close>-th call within one
  operation, a rational in \<open>[0, 1)\<close>; \<open>findEvictableIndex\<close> has three calls in its
  text, so \<open>isRandom\<close> looks at \<open>rnd 0\<close>, \<open>rnd 1\<close> and \<open>rnd 2\<close>. \<open>randomIndex\<close> is
  \<^verbatim>\<open>Math.floor(Math.random() * size)\<close>.
\<close>

definition isRandom :: "(nat \<Rightarrow> rat) \<Rightarrow> bool" where
  "isRandom rnd = list_all (\<lambda>k. 0 \<le> rnd k \<and> rnd k < 1) [0 ..< 3]"

definition randomIndex :: "rat \<Rightarrow> nat \<Rightarrow> nat" where
  "randomIndex r sz = nat \<lfloor>r * rat_of_nat sz\<rfloor>"

definition maxAttempts :: nat where
  "maxAttempts = 2"

text \<open>
  Lines 78-102. The loop is a recursion on \<open>attempts\<close>; one call of \<^verbatim>\<open>Math.random()\<close>
  is made per iteration, so iteration \<open>attempts\<close> reads \<open>rnd attempts\<close>. The source's
  parameter \<^verbatim>\<open>options\<close> is never read and is left out; the store stands for the objects
  the map refers to.
\<close>

function findEvictableLoop ::
  "string option list \<Rightarrow> (string \<times> nat) list \<Rightarrow> IpData list \<Rightarrow> int \<Rightarrow> (nat \<Rightarrow> rat) \<Rightarrow> nat \<Rightarrow> nat"
where
  "findEvictableLoop mon ipd st nowMs rnd attempts =
     (if attempts < maxAttempts then
        (let idx = randomIndex (rnd attempts) (length mon);
             occupant = js_get mon idx
         in if \<not> truthy occupant then idx
            else case map_of ipd (the occupant) of
                   None \<Rightarrow> idx
                 | Some r \<Rightarrow>
                     (let isRecentlyActive = (nowMs - lastSeenMs (st ! r) < 300000);
                          isInPreferredRange =
                            (points (st ! r) \<ge> - 50000 \<and> points (st ! r) \<le> 50000)
                      in if \<not> isInPreferredRange \<or> \<not> isRecentlyActive
                            \<or> attempts = maxAttempts - 1
                         then idx
                         else findEvictableLoop mon ipd st nowMs rnd (attempts + 1)))
      else randomIndex (rnd attempts) (length mon))"
  by pat_completeness auto

termination
  by (relation "measure (\<lambda>(mon, ipd, st, nowMs, rnd, attempts). maxAttempts - attempts)") auto

definition findEvictableIndex ::
  "string option list \<Rightarrow> (string \<times> nat) list \<Rightarrow> IpData list \<Rightarrow> int \<Rightarrow> (nat \<Rightarrow> rat) \<Rightarrow> nat"
where
  "findEvictableIndex mon ipd st nowMs rnd = findEvictableLoop mon ipd st nowMs rnd 0"

text \<open>
  Lines 103-125. The new record object is allocated at the end of the store; the
  result is its position and the new state.
\<close>

definition addIpToMonitoring ::
  "string \<Rightarrow> Plastron \<Rightarrow> int \<Rightarrow> (nat \<Rightarrow> rat) \<Rightarrow> nat \<times> Plastron"
where
  "addIpToMonitoring addr s nowMs rnd =
     (let evictIndex = findEvictableIndex (monitoredIps s) (ipData s) (store s) nowMs rnd;
          oldIp = js_get (monitoredIps s) evictIndex;
          ipData1 = (if truthy oldIp then AList.delete (the oldIp) (ipData s) else ipData s);
          newIpData = \<lparr> ip = addr, index = evictIndex, lastSeenMs = nowMs, points = 0,
                        connections = 0, reqInCurrentMin = 0, reqInPrevMin = 0,
                        reqInCurrent10Sec = 0, reqInPrev10Sec = 0 \<rparr>;
          r = length (store s)
      in (r, s\<lparr> monitoredIps := js_set (monitoredIps s) evictIndex (Some addr),
                ipData := AList.update addr r ipData1,
                store := store s @ [newIpData] \<rparr>))"

section \<open>Admission pipeline\<close>

datatype error = RateLimitMessageRequired | InvalidArrayLength

text \<open>
  Lines 171-188. The two readings of the clock are arguments. \<^verbatim>\<open>new Array(n)\<close> throws
  a \<^verbatim>\<open>RangeError\<close> from \<open>2^32 = 4294967296\<close> on.
\<close>

definition createPlastron :: "PlastronOptions \<Rightarrow> int \<Rightarrow> int \<Rightarrow> error + Plastron" where
  "createPlastron userOptions now1 now2 =
     (if rateLimitMessage userOptions = [] then Inl RateLimitMessageRequired
      else if int (ipMonitorSize userOptions) \<ge> 4294967296 then Inl InvalidArrayLength
      else Inr \<lparr> opts = userOptions,
                 monitoredIps = replicate (ipMonitorSize userOptions) None,
                 ipData = [],
                 store = [],
                 globalStats = \<lparr> reqInCurrentSec = 0, reqInPrevSec = 0,
                                 prevSecStartMs = now1, currentSecStartMs = now2,
                                 negativeReqInCurrentSec = 0 \<rparr> \<rparr>)"

text \<open>
  The outcome of one call of the middleware: \<open>Rejected status error\<close> is
  \<^verbatim>\<open>res.status(status).json({ error: error })\<close>; \<open>Admitted r slowdownMs\<close> is the call of
  \<^verbatim>\<open>next()\<close>, at once or after \<open>slowdownMs\<close>, with the completion hook bound to the
  record at position \<open>r\<close> of the store.
\<close>

datatype Response = Rejected int string | Admitted nat rat

text \<open>The four checks of lines 202-217, in the order of the source.\<close>

definition globalRateExceeded :: "PlastronOptions \<Rightarrow> GlobalStats \<Rightarrow> int \<Rightarrow> bool" where
  "globalRateExceeded options g nowMs =
     (maxRequestRatePerSec options > 0 \<and>
      calculateCurrentReqPerSec g nowMs \<ge> rat_of_int (maxRequestRatePerSec options))"

definition globalNegativeExceeded :: "PlastronOptions \<Rightarrow> GlobalStats \<Rightarrow> IpData \<Rightarrow> bool" where
  "globalNegativeExceeded options g e =
     (maxRequestNegativeIPperSec options > 0 \<and> points e < 0 \<and>
      negativeReqInCurrentSec g \<ge> maxRequestNegativeIPperSec options)"

definition ipRateExceeded :: "PlastronOptions \<Rightarrow> IpData \<Rightarrow> bool" where
  "ipRateExceeded options e =
     (let reqPer10Sec = calculate10SecReqPerSec e;
          maxReqPerSec = (if points e \<ge> 0 then maxReqPerSecPerIP options
                          else maxReqNegativePerSecPerIP options)
      in reqPer10Sec \<ge> rat_of_int maxReqPerSec)"

definition connectionsExceeded :: "PlastronOptions \<Rightarrow> IpData \<Rightarrow> bool" where
  "connectionsExceeded options e =
     (connections e \<ge> calculateMaxConnections (points e) options)"

text \<open>
  Lines 190-200, the first half of the middleware: the global windows are rolled, the
  record of the address is looked up or created, its windows are rolled and
  \<open>lastSeenMs\<close> is stamped. The result is the position of the record and the new
  state.
\<close>

definition observe ::
  "Plastron \<Rightarrow> Request \<Rightarrow> int \<Rightarrow> (nat \<Rightarrow> rat) \<Rightarrow> nat \<times> Plastron"
where
  "observe s req nowMs rnd =
     (let addr = getClientIp req;
          s1 = s\<lparr>globalStats := updateGlobalStats (globalStats s) nowMs\<rparr>;
          (r, s2) = (case map_of (ipData s1) addr of
                       Some r \<Rightarrow> (r, s1)
                     | None \<Rightarrow> addIpToMonitoring addr s1 nowMs rnd);
          e = (updateTimeWindows (store s2 ! r) nowMs)\<lparr>lastSeenMs := nowMs\<rparr>
      in (r, s2\<lparr>store := (store s2)[r := e]\<rparr>))"

text \<open>Lines 189-245, up to the call of \<^verbatim>\<open>processRequest\<close>.\<close>

definition middleware ::
  "Plastron \<Rightarrow> Request \<Rightarrow> int \<Rightarrow> (nat \<Rightarrow> rat) \<Rightarrow> Response \<times> Plastron"
where
  "middleware s req nowMs rnd =
     (let (r, s3) = observe s req nowMs rnd;
          e = store s3 ! r;
          g = globalStats s3;
          reject = (Rejected 429 (rateLimitMessage (opts s3)), s3)
      in if globalRateExceeded (opts s3) g nowMs then reject
         else if globalNegativeExceeded (opts s3) g e then reject
         else if ipRateExceeded (opts s3) e then reject
         else if connectionsExceeded (opts s3) e then reject
         else
           (let slowdownMs = calculateSlowdown (points e) (opts s3);
                g1 = g\<lparr>reqInCurrentSec := reqInCurrentSec g + 1\<rparr>;
                g2 = (if points e < 0
                      then g1\<lparr>negativeReqInCurrentSec := negativeReqInCurrentSec g1 + 1\<rparr>
                      else g1);
                e1 = e\<lparr> reqInCurrentMin := reqInCurrentMin e + 1,
                        reqInCurrent10Sec := reqInCurrent10Sec e + 1,
                        connections := connections e + 1 \<rparr>
            in (Admitted r slowdownMs,
                s3\<lparr>globalStats := g2, store := (store s3)[r := e1]\<rparr>)))"

text \<open>
  Lines 231-238: the wrapped \<^verbatim>\<open>res.send\<close> of an admitted request, called with the
  status code of the response; \<open>r\<close> is the record the admission returned.
\<close>

definition res_send :: "Plastron \<Rightarrow> nat \<Rightarrow> int \<Rightarrow> Plastron" where
  "res_send s r statusCode =
     (let e = store s ! r;
          pts = calculatePoints statusCode (opts s);
          excessivePenalty = checkExcessiveUsage e (opts s)
      in s\<lparr>store := (store s)[r := e\<lparr> points := points e + (pts + excessivePenalty),
                                        connections := max 0 (connections e - 1) \<rparr>]\<rparr>)"

text \<open>Lines 246-254, 255-257 and 258-261.\<close>

datatype IpOrReq = IpString string | Req Request

definition addPointsToIp :: "Plastron \<Rightarrow> IpOrReq \<Rightarrow> int \<Rightarrow> bool \<times> Plastron" where
  "addPointsToIp s ipOrReq pts =
     (let addr = (case ipOrReq of IpString a \<Rightarrow> a | Req req \<Rightarrow> getClientIp req)
      in case map_of (ipData s) addr of
           Some r \<Rightarrow>
             (True, s\<lparr>store := (store s)[r := (store s ! r)\<lparr>points := points (store s ! r) + pts\<rparr>]\<rparr>)
         | None \<Rightarrow> (False, s))"

definition getIpData :: "Plastron \<Rightarrow> string \<Rightarrow> IpData option" where
  "getIpData s addr = map_option (\<lambda>r. store s ! r) (map_of (ipData s) addr)"

definition totalMonitoredIps :: "Plastron \<Rightarrow> nat" where
  "totalMonitoredIps s = length (ipData s)"

section \<open>Runs of the engine\<close>

text \<open>
  What a host can do with an engine: call the middleware, complete an admitted
  request, adjust a score by hand.
\<close>

datatype Event =
    Call Request int "nat \<Rightarrow> rat"
  | Send nat int
  | AddPoints IpOrReq int

fun step :: "Plastron \<Rightarrow> Event \<Rightarrow> Plastron" where
  "step s (Call req nowMs rnd) = snd (middleware s req nowMs rnd)"
| "step s (Send r statusCode) = res_send s r statusCode"
| "step s (AddPoints ipOrReq pts) = snd (addPointsToIp s ipOrReq pts)"

definition run :: "Plastron \<Rightarrow> Event list \<Rightarrow> Plastron" where
  "run s evs = foldl step s evs"

fun validEvent :: "Event \<Rightarrow> bool" where
  "validEvent (Call req nowMs rnd) = isRandom rnd"
| "validEvent (Send r statusCode) = True"
| "validEvent (AddPoints ipOrReq pts) = True"

section \<open>Well-formed states\<close>

text \<open>
  What every state of a running engine satisfies: the map has one entry per address,
  every entry points into the store, no address is the empty string, every tracked
  address sits in a slot of \<open>monitoredIps\<close>, and the slot array is no longer than the
  configured capacity (one slot when the capacity is 0, since the first insertion
  writes slot 0 of the empty array).
\<close>

definition wf :: "Plastron \<Rightarrow> bool" where
  "wf s =
     (distinct (map fst (ipData s)) \<and>
      list_all (\<lambda>(a, r). r < length (store s) \<and> a \<noteq> [] \<and> Some a \<in> set (monitoredIps s))
        (ipData s) \<and>
      length (monitoredIps s) \<le> max 1 (ipMonitorSize (opts s)))"

section \<open>The eviction policy as the specification words it\<close>

text \<open>
  The occupant of slot \<open>i\<close> is protected when it has a record whose score lies in the
  band \<open>[-50000, 50000]\<close> and which was seen less than 300000 ms ago. The policy
  probes one random slot and takes it unless its occupant is protected; then it takes
  a second random slot, whatever is in it.
\<close>

definition spec_protected ::
  "string option list \<Rightarrow> (string \<times> nat) list \<Rightarrow> IpData list \<Rightarrow> int \<Rightarrow> nat \<Rightarrow> bool"
where
  "spec_protected mon ipd st nowMs i =
     (case js_get mon i of
        None \<Rightarrow> False
      | Some a \<Rightarrow>
          a \<noteq> [] \<and>
          (case map_of ipd a of
             None \<Rightarrow> False
           | Some r \<Rightarrow> - 50000 \<le> points (st ! r) \<and> points (st ! r) \<le> 50000 \<and>
                       nowMs - lastSeenMs (st ! r) < 300000))"

definition spec_evictable ::
  "string option list \<Rightarrow> (string \<times> nat) list \<Rightarrow> IpData list \<Rightarrow> int \<Rightarrow> (nat \<Rightarrow> rat) \<Rightarrow> nat"
where
  "spec_evictable mon ipd st nowMs rnd =
     (if spec_protected mon ipd st nowMs (randomIndex (rnd 0) (length mon))
      then randomIndex (rnd 1) (length mon)
      else randomIndex (rnd 0) (length mon))"

text \<open>A request that carries neither \<^verbatim>\<open>req.ip\<close> nor a remote address of the socket.\<close>

definition unattributable :: "Request \<Rightarrow> bool" where
  "unattributable req =
     (\<not> truthy (req_ip req) \<and>
      (case socket req of None \<Rightarrow> True | Some sk \<Rightarrow> \<not> truthy (remoteAddress sk)))"

section \<open>The later build\<close>

text \<open>
  \<^verbatim>\<open>src/README.md\<close> carries, from its line 223 on, a second compiled build of the same
  module, and \<^verbatim>\<open>src/src/types.ts\<close> declares its \<^verbatim>\<open>GlobalStats\<close>. It differs from
  \<^verbatim>\<open>src/dist/plastron.js\<close> in the global counters: five more fields, a minute window in
  \<^verbatim>\<open>updateGlobalStats\<close>, and \<^verbatim>\<open>createRateLimitResponse\<close>, through which its middleware
  sends every rejection. The two functions are modelled here; the claims are settled
  on \<^verbatim>\<open>src/dist/plastron.js\<close>, the build they cite. The global \<^verbatim>\<open>reqInCurrentMin\<close> and \<^verbatim>\<open>reqInPrevMin\<close> carry a
  \<open>G\<close>, the names being those of two fields of \<open>IpData\<close>.
\<close>

record GlobalStatsLater = GlobalStats +
  reqInCurrentMinG :: int
  reqInPrevMinG :: int
  rateLimited429InCurrentMin :: int
  rateLimited429InPrevMin :: int
  currentMinStartMs :: int

text \<open>Lines 284-303 of \<^verbatim>\<open>src/README.md\<close>.\<close>

definition updateGlobalStatsLater :: "GlobalStatsLater \<Rightarrow> int \<Rightarrow> GlobalStatsLater" where
  "updateGlobalStatsLater g nowMs =
     (let currentSec = boundary 1000 nowMs;
          prevSec = boundary 1000 (prevSecStartMs g);
          currentMin = boundary 60000 nowMs;
          prevMin = boundary 60000 (currentMinStartMs g);
          g1 = (if currentSec \<noteq> prevSec
                then g\<lparr> reqInPrevSec := reqInCurrentSec g,
                        reqInCurrentSec := 0,
                        negativeReqInCurrentSec := 0,
                        prevSecStartMs := currentSecStartMs g,
                        currentSecStartMs := nowMs \<rparr>
                else g)
      in if currentMin \<noteq> prevMin
         then g1\<lparr> reqInPrevMinG := reqInCurrentMinG g1,
                  reqInCurrentMinG := 0,
                  rateLimited429InPrevMin := rateLimited429InCurrentMin g1,
                  rateLimited429InCurrentMin := 0,
                  currentMinStartMs := nowMs \<rparr>
         else g1)"

text \<open>
  Lines 404-414 of \<^verbatim>\<open>src/README.md\<close>. The arguments are \<^verbatim>\<open>opts.enableDebug\<close>,
  \<^verbatim>\<open>opts.rateLimitMessage\<close>, the global counters and the reason; the result is the
  status, the JSON body and the new counters. The call of the logger is left out.
\<close>

record Payload =
  payload_error :: string
  payload_reason :: "string option"

definition createRateLimitResponse ::
  "bool \<Rightarrow> string \<Rightarrow> GlobalStatsLater \<Rightarrow> string option \<Rightarrow> (int \<times> Payload) \<times> GlobalStatsLater"
where
  "createRateLimitResponse enableDebug msg g reason =
     ((429, \<lparr> payload_error = msg,
              payload_reason = (if enableDebug \<and> truthy reason then reason else None) \<rparr>),
      g\<lparr>rateLimited429InCurrentMin := rateLimited429InCurrentMin g + 1\<rparr>)"

section \<open>Concrete inputs\<close>

text \<open>Inputs at which the theorems below are instantiated.\<close>

definition d0 :: IpData where
  "d0 = \<lparr> ip = ''10.0.0.1'', index = 0, lastSeenMs = 1000000, points = 0, connections = 0,
           reqInCurrentMin = 7, reqInPrevMin = 3, reqInCurrent10Sec = 4, reqInPrev10Sec = 2 \<rparr>"

definition cfg2 :: PlastronOptions where
  "cfg2 = (defaultOptions ''Rate limit exceeded'')\<lparr>ipMonitorSize := 2\<rparr>"

definition cfg2cap :: PlastronOptions where
  "cfg2cap = cfg2\<lparr>maxRequestRatePerSec := 1\<rparr>"

definition cfg0 :: PlastronOptions where
  "cfg0 = (defaultOptions ''Rate limit exceeded'')\<lparr>ipMonitorSize := 0\<rparr>"

definition reqA :: Request where
  "reqA = \<lparr> req_ip = Some ''192.168.1.1'', socket = None \<rparr>"

definition reqB :: Request where
  "reqB = \<lparr> req_ip = Some ''192.168.1.2'', socket = None \<rparr>"

definition reqC :: Request where
  "reqC = \<lparr> req_ip = None, socket = Some \<lparr> remoteAddress = Some ''192.168.1.3'' \<rparr> \<rparr>"

definition reqNoIp :: Request where
  "reqNoIp = \<lparr> req_ip = None, socket = Some \<lparr> remoteAddress = None \<rparr> \<rparr>"

definition reqEmptyIp :: Request where
  "reqEmptyIp = \<lparr> req_ip = Some [], socket = None \<rparr>"

definition rnd0 :: "nat \<Rightarrow> rat" where
  "rnd0 k = 0"

definition rndHalf :: "nat \<Rightarrow> rat" where
  "rndHalf k = 1 / 2"

definition rnd0Half :: "nat \<Rightarrow> rat" where
  "rnd0Half k = (if k = 0 then 0 else 1 / 2)"

text \<open>The engine that \<open>createPlastron\<close> returns when the clock reads 1000000 ms.\<close>

definition fresh :: "PlastronOptions \<Rightarrow> Plastron" where
  "fresh cfg =
     \<lparr> opts = cfg, monitoredIps = replicate (ipMonitorSize cfg) None, ipData = [], store = [],
       globalStats = \<lparr> reqInCurrentSec = 0, reqInPrevSec = 0, prevSecStartMs = 1000000,
                       currentSecStartMs = 1000000, negativeReqInCurrentSec = 0 \<rparr> \<rparr>"

text \<open>The same engine after one admitted request from \<open>192.168.1.1\<close>.\<close>

definition engineA :: "PlastronOptions \<Rightarrow> Plastron" where
  "engineA cfg = snd (middleware (fresh cfg) reqA 1000000 rnd0)"

text \<open>
  Three addresses on a table of two slots: the third request evicts \<open>192.168.1.1\<close>.
\<close>

definition engineABC :: Plastron where
  "engineABC =
     run (fresh cfg2)
       [Call reqA 1000000 rnd0, Call reqB 1000000 rndHalf, Call reqC 1000001 rnd0]"

text \<open>
  A configuration with a ceiling of 50 ms on the delay, and \<open>192.168.1.1\<close> after one
  request answered with 200 and a manual adjustment that brings it to \<open>- 500000\<close>
  points.
\<close>

definition cfgSlow :: PlastronOptions where
  "cfgSlow = cfg2\<lparr>ipSlowDownMaxS := 50\<rparr>"

definition enginePunished :: Plastron where
  "enginePunished =
     snd (addPointsToIp (res_send (engineA cfgSlow) 0 200) (IpString ''192.168.1.1'') (- 500001))"

section \<open>Basic facts\<close>

text \<open>The integer quotient in \<open>boundary\<close> is the ceiling of the exact quotient.\<close>

lemma boundary_ceiling: "boundary p t = \<lceil>rat_of_int t / rat_of_int p\<rceil>"
proof -
  have "\<lceil>rat_of_int t / rat_of_int p\<rceil> = - \<lfloor>rat_of_int (- t) / rat_of_int p\<rfloor>"
    by (simp add: ceiling_def)
  then show ?thesis
    by (simp only: boundary_def floor_divide_of_int_eq)
qed

lemma same_second_close:
  assumes "boundary 1000 a = boundary 1000 b"
  shows "a - b < 1000"
proof -
  have q: "(- a) div 1000 = (- b) div 1000"
    using assms by (simp add: boundary_def)
  have "- a = 1000 * ((- a) div 1000) + (- a) mod 1000"
    and "- b = 1000 * ((- b) div 1000) + (- b) mod 1000"
    by (simp_all only: mult_div_mod_eq)
  moreover have "0 \<le> (- a) mod 1000" and "(- b) mod 1000 < 1000"
    by simp_all
  ultimately show ?thesis
    using q by linarith
qed

text \<open>
  Rounding to a double. An integer is rounded to itself; a number that is at least a
  power of two is rounded to a number that is at least that power; a number of at
  most 53 significant bits is rounded to itself; rounding commutes with scaling by a
  power of two, so \<open>fl x\<close> can be read off \<open>roundHalfEven\<close> at the scaled \<open>x\<close>.
\<close>

lemma roundHalfEven_of_int: "roundHalfEven (rat_of_int n) = n"
  by (simp add: roundHalfEven_def)

lemma roundHalfEven_ge: "rat_of_int n \<le> x \<Longrightarrow> n \<le> roundHalfEven x"
proof -
  assume "rat_of_int n \<le> x"
  then have "n \<le> \<lfloor>x\<rfloor>" by (simp add: le_floor_iff)
  moreover have "\<lfloor>x\<rfloor> \<le> roundHalfEven x"
    by (simp add: roundHalfEven_def Let_def)
  ultimately show ?thesis by simp
qed

lemma fl_zero: "fl 0 = 0"
  by (simp add: fl.simps)

lemma fl_ge_power2: "(2::rat) ^ j \<le> x \<Longrightarrow> 2 ^ j \<le> fl x"
proof (induction x arbitrary: j rule: fl.induct)
  case (1 x)
  have "(0::rat) < 2 ^ j" by simp
  then have pos: "0 < x" using "1.prems" by (rule less_le_trans)
  show ?case
  proof (cases "9007199254740992 \<le> x")
    case True
    have eq: "fl x = 2 * fl (x / 2)"
      using pos True by (subst fl.simps) simp
    show ?thesis
    proof (cases j)
      case 0
      have "(2::rat) ^ 0 \<le> x / 2" using True by simp
      then have "(2::rat) ^ 0 \<le> fl (x / 2)"
        using pos True by (intro "1.IH"(2)) simp_all
      then show ?thesis using 0 eq by simp
    next
      case (Suc i)
      have "(2::rat) ^ i \<le> x / 2" using "1.prems" Suc by simp
      then have "(2::rat) ^ i \<le> fl (x / 2)"
        using pos True by (intro "1.IH"(2)) simp_all
      then show ?thesis using Suc eq by simp
    qed
  next
    case False
    show ?thesis
    proof (cases "x < 4503599627370496")
      case True
      have eq: "fl x = fl (2 * x) / 2"
        using pos False True by (subst fl.simps) simp
      have "(2::rat) ^ Suc j \<le> 2 * x" using "1.prems" by simp
      then have "(2::rat) ^ Suc j \<le> fl (2 * x)"
        using pos False True by (intro "1.IH"(3)) simp_all
      then show ?thesis using eq by simp
    next
      case ge: False
      have eq: "fl x = rat_of_int (roundHalfEven x)"
        using pos False ge by (subst fl.simps) simp
      have "(2::rat) ^ j < 2 ^ 53"
        using "1.prems" False by simp
      then have "j < 53"
        by (simp only: power_strict_increasing_iff semiring_norm)
      then have "j \<le> 52" by simp
      then have a1: "(2::rat) ^ j \<le> 2 ^ 52"
        by (intro power_increasing) simp_all
      have "rat_of_int (2 ^ 52) \<le> x"
        using ge by simp
      then have "2 ^ 52 \<le> roundHalfEven x"
        by (rule roundHalfEven_ge)
      then have "rat_of_int (2 ^ 52) \<le> rat_of_int (roundHalfEven x)"
        by (simp only: of_int_le_iff)
      moreover have "rat_of_int (2 ^ 52) = 2 ^ 52"
        by simp
      ultimately have a2: "(2::rat) ^ 52 \<le> rat_of_int (roundHalfEven x)"
        by (simp only:)
      show ?thesis
        unfolding eq using a1 a2 by (rule order_trans)
    qed
  qed
qed

lemma fl_ge_one: "1 \<le> x \<Longrightarrow> 1 \<le> fl x"
  using fl_ge_power2 [of 0 x] by simp

lemma fl_dyadic:
  "\<bar>m\<bar> < 9007199254740992 \<Longrightarrow> x = rat_of_int m / 2 ^ j \<Longrightarrow> fl x = x"
proof (induction x arbitrary: m j rule: fl.induct)
  case (1 x)
  show ?case
  proof (cases "x = 0")
    case True
    then show ?thesis by (simp add: fl_zero)
  next
    case nz: False
    show ?thesis
    proof (cases "x < 0")
      case True
      have eq: "fl x = - fl (- x)"
        using nz True by (subst fl.simps) simp
      have "\<bar>- m\<bar> < 9007199254740992" using "1.prems"(1) by simp
      moreover have "- x = rat_of_int (- m) / 2 ^ j" using "1.prems"(2) by simp
      ultimately have "fl (- x) = - x"
        by (rule "1.IH"(1) [OF nz True])
      then show ?thesis using eq by simp
    next
      case nn: False
      with nz have pos: "0 < x" by simp
      have "rat_of_int m / 2 ^ j \<le> \<bar>rat_of_int m\<bar> / 1"
        by (intro order_trans [OF _ frac_le [of "\<bar>rat_of_int m\<bar>" "\<bar>rat_of_int m\<bar>" 1 "2 ^ j"]])
           (simp_all add: divide_right_mono)
      moreover have "\<bar>rat_of_int m\<bar> < 9007199254740992"
        using "1.prems"(1) by (metis of_int_abs of_int_less_iff of_int_numeral)
      ultimately have small: "x < 9007199254740992"
        using "1.prems"(2) by simp
      then have notbig: "\<not> 9007199254740992 \<le> x" by simp
      show ?thesis
      proof (cases "x < 4503599627370496")
        case True
        have eq: "fl x = fl (2 * x) / 2"
          using pos small True by (subst fl.simps) simp
        have "fl (2 * x) = 2 * x"
        proof (cases j)
          case 0
          then have xm: "x = rat_of_int m" using "1.prems"(2) by simp
          with True pos have "0 < m" and "m < 4503599627370496"
            by simp_all
          then have b1: "\<bar>2 * m\<bar> < 9007199254740992" by simp
          have b2: "2 * x = rat_of_int (2 * m) / 2 ^ 0" using xm by simp
          show ?thesis
            by (rule "1.IH"(3) [OF nz nn notbig True b1 b2])
        next
          case (Suc i)
          then have b2: "2 * x = rat_of_int m / 2 ^ i" using "1.prems"(2) by simp
          show ?thesis
            by (rule "1.IH"(3) [OF nz nn notbig True "1.prems"(1) b2])
        qed
        then show ?thesis using eq by simp
      next
        case ge: False
        have eq: "fl x = rat_of_int (roundHalfEven x)"
          using pos small ge by (subst fl.simps) simp
        have "j = 0"
        proof (rule ccontr)
          assume "j \<noteq> 0"
          then obtain i where j: "j = Suc i" by (cases j) simp_all
          have "x = (rat_of_int m / 2 ^ i) / 2"
            using "1.prems"(2) j by simp
          moreover have "rat_of_int m / 2 ^ i \<le> \<bar>rat_of_int m\<bar> / 1"
            by (intro order_trans [OF _ frac_le [of "\<bar>rat_of_int m\<bar>" "\<bar>rat_of_int m\<bar>" 1 "2 ^ i"]])
               (simp_all add: divide_right_mono)
          moreover have "\<bar>rat_of_int m\<bar> < 9007199254740992"
            using "1.prems"(1) by (metis of_int_abs of_int_less_iff of_int_numeral)
          ultimately have "x < 4503599627370496" by simp
          with ge show False by simp
        qed
        then have "x = rat_of_int m" using "1.prems"(2) by simp
        then show ?thesis using eq by (simp add: roundHalfEven_of_int)
      qed
    qed
  qed
qed

lemma fl_of_int: "\<bar>n\<bar> < 9007199254740992 \<Longrightarrow> fl (rat_of_int n) = rat_of_int n"
  using fl_dyadic [of n "rat_of_int n" 0] by simp


lemma fl_double: "fl (2 * x) = 2 * fl x"
proof (cases "x = 0")
  case True
  then show ?thesis by (simp add: fl_zero)
next
  case nz: False
  have pos: "fl (2 * y) = 2 * fl y" if "0 < y" for y
  proof (cases "y < 4503599627370496")
    case True
    then have "fl y = fl (2 * y) / 2"
      using that by (subst fl.simps) simp
    then show ?thesis by simp
  next
    case False
    then have "fl (2 * y) = 2 * fl (2 * y / 2)"
      using that by (subst fl.simps) simp
    then show ?thesis by simp
  qed
  show ?thesis
  proof (cases "0 < x")
    case True
    then show ?thesis by (rule pos)
  next
    case False
    with nz have neg: "x < 0" by simp
    then have "fl (2 * x) = - fl (- (2 * x))"
      by (subst fl.simps) simp
    moreover have "fl x = - fl (- x)"
      using neg by (subst fl.simps) simp
    moreover have "fl (2 * (- x)) = 2 * fl (- x)"
      using neg by (intro pos) simp
    ultimately show ?thesis by simp
  qed
qed

lemma fl_scale: "fl (2 ^ n * x) = 2 ^ n * fl x"
proof (induction n)
  case 0
  show ?case by simp
next
  case (Suc n)
  have "fl (2 ^ Suc n * x) = fl (2 * (2 ^ n * x))"
    by (simp add: mult.assoc)
  also have "\<dots> = 2 * fl (2 ^ n * x)"
    by (rule fl_double)
  finally show ?case
    using Suc by simp
qed

lemma fl_scaled:
  assumes "4503599627370496 \<le> 2 ^ n * x" and "2 ^ n * x < 9007199254740992"
  shows "fl x = rat_of_int (roundHalfEven (2 ^ n * x)) / 2 ^ n"
proof -
  define y where "y = 2 ^ n * x"
  have "4503599627370496 \<le> y" and "y < 9007199254740992"
    using assms by (simp_all only: y_def)
  then have "fl y = rat_of_int (roundHalfEven y)"
    by (subst fl.simps) simp
  then have "fl (2 ^ n * x) = rat_of_int (roundHalfEven (2 ^ n * x))"
    by (simp only: y_def)
  then have "2 ^ n * fl x = rat_of_int (roundHalfEven (2 ^ n * x))"
    by (simp only: fl_scale)
  then show ?thesis
    by (simp add: field_simps)
qed

lemma fl_four_fifths: "fl (4 / 5) = 3602879701896397 / 4503599627370496"
proof -
  have "roundHalfEven (36028797018963968 / 5) = 7205759403792794"
    by code_simp
  then show ?thesis
    using fl_scaled [of 53 "4 / 5"] by simp
qed

text \<open>
  Doubles that the witnesses below meet. \<open>4 / 5\<close> is not a double: it is rounded up to
  the next one, \<open>c\<close>. Then \<open>1 - c\<close> and \<open>10 * (1 - c)\<close> are doubles, the second just
  below 2, and \<open>c * 5000\<close> is rounded to 4000.
\<close>

lemma fl_values:
  "fl 1 = 1" "fl 5 = 5" "fl 50 = 50" "fl 2500 = 2500" "fl 5000 = 5000" "fl (1 / 2) = 1 / 2"
  using fl_of_int [of 1] fl_of_int [of 5] fl_of_int [of 50] fl_of_int [of 2500]
    fl_of_int [of 5000] fl_dyadic [of 1 "1 / 2" 1]
  by simp_all

lemma fl_four_fifths_complement:
  "1 - 3602879701896397 / 4503599627370496 = (900719925474099 / 4503599627370496 :: rat)"
  "fl (900719925474099 / 4503599627370496) = 900719925474099 / 4503599627370496"
  "10 * (900719925474099 / 4503599627370496) = (4503599627370495 / 2251799813685248 :: rat)"
  "fl (4503599627370495 / 2251799813685248) = 4503599627370495 / 2251799813685248"
  using fl_dyadic [of 900719925474099 "900719925474099 / 4503599627370496" 52]
    fl_dyadic [of 4503599627370495 "4503599627370495 / 2251799813685248" 51]
  by simp_all

lemma fl_four_fifths_delay: "fl (2251799813685248125 / 562949953421312) = 4000"
proof -
  have "roundHalfEven (2 ^ 41 * (2251799813685248125 / 562949953421312)) = 2 ^ 41 * 4000"
    by code_simp
  then show ?thesis
    using fl_scaled [of 41 "2251799813685248125 / 562949953421312"] by simp
qed

lemma floor_below_two: "\<lfloor>4503599627370495 / 2251799813685248 :: rat\<rfloor> = 1"
  by code_simp

text \<open>The punishment ratio in the range the specification assumes.\<close>

lemma slowdownRatio_eq:
  assumes "ipSlowDownMaxPunishmentAt cfg < ipSlowDownStartsAt cfg"
    and "pts < ipSlowDownStartsAt cfg"
  shows "slowdownRatio pts cfg =
         min 1 (fl (rat_of_int (ipSlowDownStartsAt cfg - pts) /
                    rat_of_int (ipSlowDownStartsAt cfg - ipSlowDownMaxPunishmentAt cfg)))"
  using assms by (simp add: slowdownRatio_def Let_def max_def)

lemma slowdownRatio_saturated:
  assumes "ipSlowDownMaxPunishmentAt cfg < ipSlowDownStartsAt cfg"
    and "pts \<le> ipSlowDownMaxPunishmentAt cfg"
  shows "slowdownRatio pts cfg = 1"
proof -
  let ?range = "ipSlowDownStartsAt cfg - ipSlowDownMaxPunishmentAt cfg"
  let ?position = "ipSlowDownStartsAt cfg - pts"
  have pos: "0 < ?range" and le: "?range \<le> ?position"
    using assms by simp_all
  have "rat_of_int ?range \<le> rat_of_int ?position"
    using le by (simp only: of_int_le_iff)
  moreover have "0 < rat_of_int ?range"
    using pos by (simp only: of_int_0_less_iff)
  ultimately have "1 \<le> rat_of_int ?position / rat_of_int ?range"
    by (simp add: le_divide_eq)
  then have "1 \<le> fl (rat_of_int ?position / rat_of_int ?range)"
    by (rule fl_ge_one)
  moreover have "slowdownRatio pts cfg = min 1 (fl (rat_of_int ?position / rat_of_int ?range))"
    using assms by (intro slowdownRatio_eq) simp_all
  ultimately show ?thesis by simp
qed

lemma calculateMaxConnections_pos:
  assumes "0 < maxSimultanousConnectionsPerIP cfg" and "0 \<le> pts"
  shows "0 < calculateMaxConnections pts cfg"
  using assms by (auto simp: calculateMaxConnections_def Let_def max_def)

text \<open>Addresses and random slots.\<close>

lemma getClientIp_nonempty: "getClientIp req \<noteq> []"
  by (auto simp: getClientIp_def truthy_def split: option.splits)

lemma getClientIp_unattributable: "unattributable req \<Longrightarrow> getClientIp req = ''*error*''"
  by (simp add: unattributable_def getClientIp_def split: option.splits)

lemma randomIndex_zero: "randomIndex r 0 = 0"
  by (simp add: randomIndex_def)

lemma randomIndex_less:
  assumes "0 \<le> r" "r < 1" "0 < n"
  shows "randomIndex r n < n"
proof -
  have "r * rat_of_nat n < rat_of_nat n"
    using assms by simp
  then have "\<lfloor>r * rat_of_nat n\<rfloor> < int n"
    by (simp add: floor_less_iff)
  then show ?thesis
    using assms by (simp add: randomIndex_def)
qed

lemma isRandom_nth: "isRandom rnd \<Longrightarrow> k < 3 \<Longrightarrow> 0 \<le> rnd k \<and> rnd k < 1"
  by (simp add: isRandom_def list_all_iff)

lemma findEvictableIndex_spec:
  "findEvictableIndex mon ipd st nowMs rnd = spec_evictable mon ipd st nowMs rnd"
  by (auto simp: findEvictableIndex_def spec_evictable_def spec_protected_def maxAttempts_def
      truthy_def Let_def split: option.splits)

lemma findEvictableIndex_bound:
  assumes "isRandom rnd"
  shows "findEvictableIndex mon ipd st nowMs rnd < max 1 (length mon)"
proof (cases "length mon = 0")
  case True
  then show ?thesis
    by (simp add: findEvictableIndex_spec spec_evictable_def randomIndex_zero)
next
  case False
  then have "randomIndex (rnd 0) (length mon) < length mon"
    and "randomIndex (rnd 1) (length mon) < length mon"
    using isRandom_nth [OF assms, of 0] isRandom_nth [OF assms, of 1]
    by (simp_all add: randomIndex_less)
  then show ?thesis
    by (simp add: findEvictableIndex_spec spec_evictable_def)
qed

text \<open>What the stages of the middleware change.\<close>

lemma nth_update_if: "xs[i := x] ! j = (if i = j \<and> j < length xs then x else xs ! j)"
  by (cases "i < length xs") (auto simp: nth_list_update list_update_beyond)

lemma updateTimeWindows_frame:
  "points (updateTimeWindows d nowMs) = points d"
  "connections (updateTimeWindows d nowMs) = connections d"
  "ip (updateTimeWindows d nowMs) = ip d"
  "index (updateTimeWindows d nowMs) = index d"
  by (simp_all add: updateTimeWindows_def Let_def)

lemma updateTimeWindows_same: "lastSeenMs d = nowMs \<Longrightarrow> updateTimeWindows d nowMs = d"
  by (simp add: updateTimeWindows_def Let_def)

lemma addIpToMonitoring_frame:
  "opts (snd (addIpToMonitoring addr s nowMs rnd)) = opts s"
  "globalStats (snd (addIpToMonitoring addr s nowMs rnd)) = globalStats s"
  "fst (addIpToMonitoring addr s nowMs rnd) = length (store s)"
  "store (snd (addIpToMonitoring addr s nowMs rnd)) =
     store s @ [\<lparr> ip = addr,
                   index = findEvictableIndex (monitoredIps s) (ipData s) (store s) nowMs rnd,
                   lastSeenMs = nowMs, points = 0, connections = 0, reqInCurrentMin = 0,
                   reqInPrevMin = 0, reqInCurrent10Sec = 0, reqInPrev10Sec = 0 \<rparr>]"
  by (simp_all add: addIpToMonitoring_def Let_def)

lemma addIpToMonitoring_lookup:
  "map_of (ipData (snd (addIpToMonitoring addr s nowMs rnd))) addr = Some (length (store s))"
  by (simp add: addIpToMonitoring_def Let_def update_conv')

lemma addIpToMonitoring_deletes:
  assumes "js_get (monitoredIps s) (findEvictableIndex (monitoredIps s) (ipData s) (store s) nowMs rnd) = Some a"
    and "a \<noteq> []" and "a \<noteq> addr"
  shows "map_of (ipData (snd (addIpToMonitoring addr s nowMs rnd))) a = None"
  using assms by (simp add: addIpToMonitoring_def Let_def truthy_def update_conv' delete_conv')

lemma observe_found:
  assumes "map_of (ipData s) (getClientIp req) = Some r"
  shows "observe s req nowMs rnd =
     (r, s\<lparr> globalStats := updateGlobalStats (globalStats s) nowMs,
            store := (store s)[r := (updateTimeWindows (store s ! r) nowMs)\<lparr>lastSeenMs := nowMs\<rparr>] \<rparr>)"
  using assms by (simp add: observe_def Let_def)

lemma observe_new:
  assumes "map_of (ipData s) (getClientIp req) = None"
  shows "observe s req nowMs rnd =
     (let s1 = s\<lparr>globalStats := updateGlobalStats (globalStats s) nowMs\<rparr>;
          s2 = snd (addIpToMonitoring (getClientIp req) s1 nowMs rnd);
          r = length (store s)
      in (r, s2\<lparr>store := (store s2)[r := (updateTimeWindows (store s2 ! r) nowMs)\<lparr>lastSeenMs := nowMs\<rparr>]\<rparr>))"
  using assms by (simp add: observe_def Let_def split_beta addIpToMonitoring_frame)

lemma observe_frame:
  "opts (snd (observe s req nowMs rnd)) = opts s"
  "globalStats (snd (observe s req nowMs rnd)) = updateGlobalStats (globalStats s) nowMs"
  "length (store s) \<le> length (store (snd (observe s req nowMs rnd)))"
  by (cases "map_of (ipData s) (getClientIp req)";
      simp add: observe_found observe_new Let_def addIpToMonitoring_frame)+

lemma observe_Pair:
  "observe s req nowMs rnd = (r, s3) \<Longrightarrow>
     opts s3 = opts s \<and> globalStats s3 = updateGlobalStats (globalStats s) nowMs"
  using observe_frame [of s req nowMs rnd] by simp

lemma observe_lookup:
  "map_of (ipData (snd (observe s req nowMs rnd))) (getClientIp req) =
     Some (fst (observe s req nowMs rnd))"
  by (cases "map_of (ipData s) (getClientIp req)")
     (simp_all add: observe_found observe_new Let_def addIpToMonitoring_lookup)

lemma observe_fresh:
  assumes "ipData s = []" and "store s = []"
  shows "fst (observe s req nowMs rnd) = 0"
    and "store (snd (observe s req nowMs rnd)) ! 0 =
      \<lparr> ip = getClientIp req,
        index = findEvictableIndex (monitoredIps s) [] [] nowMs rnd,
        lastSeenMs = nowMs, points = 0, connections = 0, reqInCurrentMin = 0,
        reqInPrevMin = 0, reqInCurrent10Sec = 0, reqInPrev10Sec = 0 \<rparr>"
  using assms
  by (simp_all add: observe_new Let_def addIpToMonitoring_frame updateTimeWindows_same)

lemma observe_points:
  assumes "r' < length (store s)"
  shows "points (store (snd (observe s req nowMs rnd)) ! r') = points (store s ! r')"
proof (cases "map_of (ipData s) (getClientIp req)")
  case None
  then show ?thesis
    using assms
    by (simp add: observe_new Let_def addIpToMonitoring_frame nth_update_if nth_append)
next
  case (Some r)
  then show ?thesis
    using assms
    by (simp add: observe_found nth_update_if updateTimeWindows_frame)
qed

lemma middleware_table:
  "ipData (snd (middleware s req nowMs rnd)) = ipData (snd (observe s req nowMs rnd))"
  "monitoredIps (snd (middleware s req nowMs rnd)) = monitoredIps (snd (observe s req nowMs rnd))"
  "length (store (snd (middleware s req nowMs rnd))) = length (store (snd (observe s req nowMs rnd)))"
  "opts (snd (middleware s req nowMs rnd)) = opts s"
  by (simp_all add: middleware_def Let_def split_beta observe_frame)

lemma middleware_Admitted_fst:
  "fst (middleware s req nowMs rnd) = Admitted r d \<Longrightarrow> r = fst (observe s req nowMs rnd)"
  by (simp add: middleware_def Let_def split_beta split: if_splits)

lemma middleware_points:
  assumes "r' < length (store s)"
  shows "points (store (snd (middleware s req nowMs rnd)) ! r') = points (store s ! r')"
proof -
  obtain r s3 where ob: "observe s req nowMs rnd = (r, s3)"
    by (cases "observe s req nowMs rnd")
  have p3: "points (store s3 ! r') = points (store s ! r')"
    using observe_points [OF assms, of req nowMs rnd] ob by simp
  show ?thesis
    using p3 by (simp add: middleware_def ob Let_def nth_update_if)
qed

lemma middleware_rejects:
  assumes "globalRateExceeded (opts s) (updateGlobalStats (globalStats s) nowMs) nowMs \<or>
     globalNegativeExceeded (opts s) (updateGlobalStats (globalStats s) nowMs)
       (store (snd (observe s req nowMs rnd)) ! fst (observe s req nowMs rnd)) \<or>
     ipRateExceeded (opts s) (store (snd (observe s req nowMs rnd)) ! fst (observe s req nowMs rnd)) \<or>
     connectionsExceeded (opts s) (store (snd (observe s req nowMs rnd)) ! fst (observe s req nowMs rnd))"
  shows "middleware s req nowMs rnd =
     (Rejected 429 (rateLimitMessage (opts s)), snd (observe s req nowMs rnd))"
  using assms by (auto simp: middleware_def Let_def split_beta observe_frame)

lemma middleware_admits:
  assumes "\<not> globalRateExceeded (opts s) (updateGlobalStats (globalStats s) nowMs) nowMs"
    and "\<not> globalNegativeExceeded (opts s) (updateGlobalStats (globalStats s) nowMs)
       (store (snd (observe s req nowMs rnd)) ! fst (observe s req nowMs rnd))"
    and "\<not> ipRateExceeded (opts s) (store (snd (observe s req nowMs rnd)) ! fst (observe s req nowMs rnd))"
    and "\<not> connectionsExceeded (opts s) (store (snd (observe s req nowMs rnd)) ! fst (observe s req nowMs rnd))"
  shows "fst (middleware s req nowMs rnd) =
     Admitted (fst (observe s req nowMs rnd))
       (calculateSlowdown
          (points (store (snd (observe s req nowMs rnd)) ! fst (observe s req nowMs rnd))) (opts s))"
    and "globalStats (snd (middleware s req nowMs rnd)) =
      (updateGlobalStats (globalStats s) nowMs)
        \<lparr> reqInCurrentSec := reqInCurrentSec (updateGlobalStats (globalStats s) nowMs) + 1,
          negativeReqInCurrentSec :=
            negativeReqInCurrentSec (updateGlobalStats (globalStats s) nowMs) +
            (if points (store (snd (observe s req nowMs rnd)) ! fst (observe s req nowMs rnd)) < 0
             then 1 else 0) \<rparr>"
  using assms by (simp_all add: middleware_def Let_def split_beta observe_frame)

lemma middleware_Admitted:
  assumes "fst (middleware s req nowMs rnd) = Admitted r d"
  shows "r = fst (observe s req nowMs rnd)"
    and "d = calculateSlowdown (points (store (snd (observe s req nowMs rnd)) ! r)) (opts s)"
    and "connections (store (snd (observe s req nowMs rnd)) ! r) <
           calculateMaxConnections (points (store (snd (observe s req nowMs rnd)) ! r)) (opts s)"
  using assms
  by (auto simp: middleware_def Let_def split_beta observe_frame connectionsExceeded_def
      split: if_splits)

lemma middleware_prev:
  "reqInPrevSec (globalStats (snd (middleware s req nowMs rnd))) =
     reqInPrevSec (updateGlobalStats (globalStats s) nowMs)"
  "prevSecStartMs (globalStats (snd (middleware s req nowMs rnd))) =
     prevSecStartMs (updateGlobalStats (globalStats s) nowMs)"
  "currentSecStartMs (globalStats (snd (middleware s req nowMs rnd))) =
     currentSecStartMs (updateGlobalStats (globalStats s) nowMs)"
  by (simp_all add: middleware_def Let_def split_beta observe_frame)

text \<open>The global rate seen by the second of two requests of one second.\<close>

lemma rate_one:
  assumes "reqInCurrentSec g + reqInPrevSec g = 1" and "nowMs - prevSecStartMs g < 1000"
  shows "calculateCurrentReqPerSec g nowMs = 1"
proof -
  have "rat_of_int (nowMs - prevSecStartMs g) < 1000"
    using assms(2) by (metis of_int_less_iff of_int_numeral)
  then have "max 1 (rat_of_int (nowMs - prevSecStartMs g) / 1000) = 1"
    by (simp add: max_def)
  then show ?thesis
    using assms(1) by (simp add: calculateCurrentReqPerSec_def Let_def)
qed

lemma second_request_rate:
  assumes g0: "reqInCurrentSec g0 = 0" "reqInPrevSec g0 = 0"
    and same: "boundary 1000 nowA = boundary 1000 nowB"
  shows "calculateCurrentReqPerSec
           (updateGlobalStats
              ((updateGlobalStats g0 nowA)
                 \<lparr> reqInCurrentSec := reqInCurrentSec (updateGlobalStats g0 nowA) + 1,
                   negativeReqInCurrentSec := n \<rparr>) nowB) nowB = 1"
proof (rule rate_one)
  let ?g1 = "(updateGlobalStats g0 nowA)
                 \<lparr> reqInCurrentSec := reqInCurrentSec (updateGlobalStats g0 nowA) + 1,
                   negativeReqInCurrentSec := n \<rparr>"
  show "reqInCurrentSec (updateGlobalStats ?g1 nowB) + reqInPrevSec (updateGlobalStats ?g1 nowB) = 1"
    using g0 by (simp add: updateGlobalStats_def Let_def)
  have ab: "nowB - nowA < 1000"
    using same by (simp add: same_second_close)
  show "nowB - prevSecStartMs (updateGlobalStats ?g1 nowB) < 1000"
  proof (cases "boundary 1000 nowA = boundary 1000 (prevSecStartMs g0)")
    case True
    then have "boundary 1000 nowB = boundary 1000 (prevSecStartMs g0)"
      using same by simp
    then have "nowB - prevSecStartMs g0 < 1000"
      by (rule same_second_close)
    with True same show ?thesis
      by (simp add: updateGlobalStats_def Let_def)
  next
    case False
    show ?thesis
    proof (cases "boundary 1000 nowB = boundary 1000 (currentSecStartMs g0)")
      case True
      then have "nowB - currentSecStartMs g0 < 1000"
        by (rule same_second_close)
      with True False show ?thesis
        by (simp add: updateGlobalStats_def Let_def)
    next
      case b: False
      with False ab show ?thesis
        by (simp add: updateGlobalStats_def Let_def)
    qed
  qed
qed

text \<open>The concrete inputs, evaluated.\<close>

lemma createPlastron_fresh:
  "createPlastron cfg2 1000000 1000000 = Inr (fresh cfg2)"
  "createPlastron cfg2cap 1000000 1000000 = Inr (fresh cfg2cap)"
  "createPlastron cfg0 1000000 1000000 = Inr (fresh cfg0)"
  by (simp_all add: createPlastron_def fresh_def cfg2_def cfg2cap_def cfg0_def defaultOptions_def)

lemma engineA_eval:
  "engineA cfg2 =
     \<lparr> opts = cfg2, monitoredIps = [Some ''192.168.1.1'', None],
       ipData = [(''192.168.1.1'', 0)],
       store = [\<lparr> ip = ''192.168.1.1'', index = 0, lastSeenMs = 1000000, points = 0,
                  connections = 1, reqInCurrentMin = 1, reqInPrevMin = 0,
                  reqInCurrent10Sec = 1, reqInPrev10Sec = 0 \<rparr>],
       globalStats = \<lparr> reqInCurrentSec = 1, reqInPrevSec = 0, prevSecStartMs = 1000000,
                       currentSecStartMs = 1000000, negativeReqInCurrentSec = 0 \<rparr> \<rparr>"
  by code_simp

lemma engineABC_eval:
  "ipData engineABC = [(''192.168.1.2'', 1), (''192.168.1.3'', 2)]"
  "monitoredIps engineABC = [Some ''192.168.1.3'', Some ''192.168.1.2'']"
  by code_simp+

lemma cfg2_fields:
  "pointsFor20x cfg2 = 1" "pointsFor30x cfg2 = 0" "pointsFor400 cfg2 = - 10000"
  "pointsFor401 cfg2 = - 10000" "pointsFor404 cfg2 = - 100" "pointsFor40x cfg2 = - 10"
  "pointsFor50x cfg2 = - 20" "ipMonitorSize cfg2 = 2"
  "rateLimitMessage cfg2 = ''Rate limit exceeded''"
  "excessiveReqPerS cfg2 = 50" "excessiveReqPerMin cfg2 = 200"
  "pointsForExcessiveRequest cfg2 = - 100"
  by (simp_all add: cfg2_def defaultOptions_def)

lemma isRandom_rnd: "isRandom rnd0" "isRandom rndHalf"
  by (simp_all add: isRandom_def list_all_iff rnd0_def rndHalf_def)

lemma enginePunished_eval:
  "points (store enginePunished ! 0) = - 500000"
  "ipSlowDownMaxPunishmentAt cfgSlow = - 500000"
  "ipSlowDownMaxS cfgSlow = 50"
  "opts enginePunished = cfgSlow"
  "fst (middleware enginePunished reqA 1000000 rnd0) = Admitted 0 100"
  by code_simp+

section \<open>Facts about the later build\<close>

text \<open>
  Its second window is the one of \<^verbatim>\<open>src/dist/plastron.js\<close>; its minute window carries
  the current counters into the previous ones at every change of the minute boundary,
  with no reset after an idle gap; each of its rejections answers 429 with the
  configured message and adds one to \<open>rateLimited429InCurrentMin\<close>.
\<close>

lemma later_second_window:
  "GlobalStats.truncate (updateGlobalStatsLater g nowMs) =
     updateGlobalStats (GlobalStats.truncate g) nowMs"
  by (simp add: updateGlobalStatsLater_def updateGlobalStats_def Let_def GlobalStats.truncate_def)

lemma later_minute_window:
  "boundary 60000 nowMs \<noteq> boundary 60000 (currentMinStartMs g) \<Longrightarrow>
     reqInPrevMinG (updateGlobalStatsLater g nowMs) = reqInCurrentMinG g \<and>
     reqInCurrentMinG (updateGlobalStatsLater g nowMs) = 0 \<and>
     rateLimited429InPrevMin (updateGlobalStatsLater g nowMs) = rateLimited429InCurrentMin g \<and>
     rateLimited429InCurrentMin (updateGlobalStatsLater g nowMs) = 0 \<and>
     currentMinStartMs (updateGlobalStatsLater g nowMs) = nowMs"
  "boundary 60000 nowMs = boundary 60000 (currentMinStartMs g) \<Longrightarrow>
     reqInPrevMinG (updateGlobalStatsLater g nowMs) = reqInPrevMinG g \<and>
     reqInCurrentMinG (updateGlobalStatsLater g nowMs) = reqInCurrentMinG g \<and>
     rateLimited429InPrevMin (updateGlobalStatsLater g nowMs) = rateLimited429InPrevMin g \<and>
     rateLimited429InCurrentMin (updateGlobalStatsLater g nowMs) = rateLimited429InCurrentMin g \<and>
     currentMinStartMs (updateGlobalStatsLater g nowMs) = currentMinStartMs g"
  by (simp_all add: updateGlobalStatsLater_def Let_def)

lemma later_rejection:
  "fst (fst (createRateLimitResponse dbg msg g reason)) = 429"
  "payload_error (snd (fst (createRateLimitResponse dbg msg g reason))) = msg"
  "rateLimited429InCurrentMin (snd (createRateLimitResponse dbg msg g reason)) =
     rateLimited429InCurrentMin g + 1"
  "\<not> dbg \<Longrightarrow> payload_reason (snd (fst (createRateLimitResponse dbg msg g reason))) = None"
  by (simp_all add: createRateLimitResponse_def)

section \<open>Well-formedness is invariant\<close>

lemma wf_alt:
  "wf s \<longleftrightarrow>
     distinct (map fst (ipData s)) \<and>
     (\<forall>a r. map_of (ipData s) a = Some r \<longrightarrow>
        r < length (store s) \<and> a \<noteq> [] \<and> Some a \<in> set (monitoredIps s)) \<and>
     length (monitoredIps s) \<le> max 1 (ipMonitorSize (opts s))"
proof (cases "distinct (map fst (ipData s))")
  case True
  then show ?thesis
    by (auto simp: wf_def list_all_iff)
next
  case False
  then show ?thesis
    by (simp add: wf_def)
qed

lemma wf_cong:
  assumes "ipData s' = ipData s" "monitoredIps s' = monitoredIps s"
    "length (store s') = length (store s)" "opts s' = opts s"
  shows "wf s' = wf s"
  using assms by (simp add: wf_def)

lemma wf_lookup: "wf s \<Longrightarrow> map_of (ipData s) addr = Some r \<Longrightarrow> r < length (store s)"
  by (auto simp: wf_def list_all_iff dest: map_of_SomeD)

lemma js_set_length:
  "i < max 1 (length xs) \<Longrightarrow> length (js_set xs i v) = max 1 (length xs) \<or> length (js_set xs i v) = length xs"
  by (auto simp: js_set_def max_def)

lemma js_set_length_le:
  assumes "i < max 1 (length xs)" "length xs \<le> max 1 n"
  shows "length (js_set xs i v) \<le> max 1 n"
  using assms by (auto simp: js_set_def max_def split: if_splits)

lemma js_set_mem: "v \<in> set (js_set xs i v)"
  by (auto simp: js_set_def set_update_memI)

lemma js_set_keeps:
  assumes "x \<in> set xs" "js_get xs i \<noteq> x"
  shows "x \<in> set (js_set xs i v)"
proof -
  from assms(1) obtain j where j: "j < length xs" "xs ! j = x"
    by (auto simp: in_set_conv_nth)
  show ?thesis
  proof (cases "i < length xs")
    case True
    with assms(2) j have "j \<noteq> i"
      by (auto simp: js_get_def)
    with j True have "xs[i := v] ! j = x" "j < length (xs[i := v])"
      by simp_all
    then have "x \<in> set (xs[i := v])"
      by (metis nth_mem)
    with True show ?thesis
      by (simp add: js_set_def)
  next
    case False
    with assms(1) show ?thesis
      by (simp add: js_set_def)
  qed
qed

lemma wf_addIpToMonitoring:
  assumes w: "wf s" and rn: "isRandom rnd" and ne: "addr \<noteq> []"
  shows "wf (snd (addIpToMonitoring addr s nowMs rnd))"
proof -
  let ?i = "findEvictableIndex (monitoredIps s) (ipData s) (store s) nowMs rnd"
  let ?old = "js_get (monitoredIps s) ?i"
  let ?ipd1 = "if truthy ?old then AList.delete (the ?old) (ipData s) else ipData s"
  let ?s' = "snd (addIpToMonitoring addr s nowMs rnd)"
  have eq: "ipData ?s' = AList.update addr (length (store s)) ?ipd1"
    "monitoredIps ?s' = js_set (monitoredIps s) ?i (Some addr)"
    "length (store ?s') = Suc (length (store s))"
    "opts ?s' = opts s"
    by (simp_all add: addIpToMonitoring_def Let_def)
  from w have d: "distinct (map fst (ipData s))"
    and m: "\<And>a r. map_of (ipData s) a = Some r \<Longrightarrow>
              r < length (store s) \<and> a \<noteq> [] \<and> Some a \<in> set (monitoredIps s)"
    and l: "length (monitoredIps s) \<le> max 1 (ipMonitorSize (opts s))"
    by (simp_all add: wf_alt)
  have ib: "?i < max 1 (length (monitoredIps s))"
    using rn by (rule findEvictableIndex_bound)
  have d1: "distinct (map fst ?ipd1)"
    using d by (simp add: distinct_delete)
  have d': "distinct (map fst (ipData ?s'))"
    using d1 by (simp only: eq distinct_update)
  have l': "length (monitoredIps ?s') \<le> max 1 (ipMonitorSize (opts ?s'))"
    using js_set_length_le [OF ib l] by (simp only: eq)
  have m': "r < length (store ?s') \<and> a \<noteq> [] \<and> Some a \<in> set (monitoredIps ?s')"
    if look: "map_of (ipData ?s') a = Some r" for a r
  proof (cases "a = addr")
    case True
    with look have "r = length (store s)"
      by (simp add: eq update_conv')
    with True ne show ?thesis
      by (simp add: eq js_set_mem)
  next
    case False
    with look have l1: "map_of ?ipd1 a = Some r"
      by (simp add: eq update_conv')
    have l0: "map_of (ipData s) a = Some r" and nold: "?old \<noteq> Some a"
    proof -
      show "map_of (ipData s) a = Some r"
        using l1 by (auto simp: delete_conv' split: if_splits)
      show "?old \<noteq> Some a"
      proof
        assume o: "?old = Some a"
        have "a \<noteq> []"
          using m [OF \<open>map_of (ipData s) a = Some r\<close>] by simp
        with o have "truthy ?old"
          by (simp add: truthy_def)
        with o l1 show False
          by (simp add: delete_conv')
      qed
    qed
    from m [OF l0] have r: "r < length (store s)" and a: "a \<noteq> []"
      and mem: "Some a \<in> set (monitoredIps s)"
      by simp_all
    have "Some a \<in> set (js_set (monitoredIps s) ?i (Some addr))"
      using mem nold by (intro js_set_keeps) simp_all
    with r a show ?thesis
      by (simp add: eq)
  qed
  show ?thesis
    unfolding wf_alt using d' l' m' by blast
qed

lemma wf_observe:
  assumes "wf s" "isRandom rnd"
  shows "wf (snd (observe s req nowMs rnd))"
proof (cases "map_of (ipData s) (getClientIp req)")
  case None
  let ?s1 = "s\<lparr>globalStats := updateGlobalStats (globalStats s) nowMs\<rparr>"
  have "wf ?s1"
    using assms(1) by (simp add: wf_def)
  then have "wf (snd (addIpToMonitoring (getClientIp req) ?s1 nowMs rnd))"
    using assms(2) getClientIp_nonempty by (rule wf_addIpToMonitoring)
  then show ?thesis
    using None by (simp add: observe_new Let_def wf_def)
next
  case (Some r)
  then show ?thesis
    using assms(1) by (simp add: observe_found wf_def)
qed

lemma wf_middleware:
  assumes "wf s" "isRandom rnd"
  shows "wf (snd (middleware s req nowMs rnd))"
proof -
  have "wf (snd (middleware s req nowMs rnd)) = wf (snd (observe s req nowMs rnd))"
    by (rule wf_cong) (simp_all add: middleware_table observe_frame)
  then show ?thesis
    using wf_observe [OF assms] by simp
qed

lemma wf_res_send: "wf s \<Longrightarrow> wf (res_send s r c)"
  by (simp add: wf_def res_send_def Let_def)

lemma wf_addPointsToIp: "wf s \<Longrightarrow> wf (snd (addPointsToIp s x pts))"
  by (simp add: wf_def addPointsToIp_def Let_def split: option.splits)

lemma wf_step: "wf s \<Longrightarrow> validEvent ev \<Longrightarrow> wf (step s ev)"
  by (cases ev) (simp_all add: wf_middleware wf_res_send wf_addPointsToIp)

lemma opts_step: "opts (step s ev) = opts s"
  by (cases ev) (simp_all add: middleware_table res_send_def Let_def addPointsToIp_def
      split: option.splits)

lemma wf_run: "wf s \<Longrightarrow> list_all validEvent evs \<Longrightarrow> wf (run s evs) \<and> opts (run s evs) = opts s"
  unfolding run_def
proof (induction evs arbitrary: s)
  case Nil
  then show ?case by simp
next
  case (Cons ev evs)
  then have "wf (step s ev)" and "list_all validEvent evs"
    by (simp_all add: wf_step)
  with Cons.IH [of "step s ev"] show ?case
    by (simp add: opts_step)
qed

lemma wf_createPlastron:
  "createPlastron cfg now1 now2 = Inr s \<Longrightarrow> wf s \<and> opts s = cfg"
  by (auto simp: createPlastron_def wf_def split: if_splits)

lemma wf_size:
  assumes "wf s"
  shows "length (ipData s) \<le> max 1 (ipMonitorSize (opts s))"
proof -
  let ?K = "set (map fst (ipData s))"
  from assms have d: "distinct (map fst (ipData s))"
    and m: "\<And>a r. map_of (ipData s) a = Some r \<Longrightarrow> Some a \<in> set (monitoredIps s)"
    and l: "length (monitoredIps s) \<le> max 1 (ipMonitorSize (opts s))"
    by (simp_all add: wf_alt)
  have sub: "Some ` ?K \<subseteq> set (monitoredIps s)"
  proof
    fix x assume "x \<in> Some ` ?K"
    then obtain a r where "x = Some a" "(a, r) \<in> set (ipData s)"
      by auto
    with d have "map_of (ipData s) a = Some r"
      by simp
    with \<open>x = Some a\<close> show "x \<in> set (monitoredIps s)"
      using m by simp
  qed
  have "length (ipData s) = card ?K"
    using d by (metis distinct_card length_map)
  also have "\<dots> = card (Some ` ?K)"
    by (simp add: card_image)
  also have "\<dots> \<le> card (set (monitoredIps s))"
    using sub by (simp add: card_mono)
  also have "\<dots> \<le> length (monitoredIps s)"
    by (rule card_length)
  finally show ?thesis
    using l by simp
qed

section \<open>Delay and connection cap\<close>

text \<open>
  Claim C1, as amended. Let \<open>ipSlowDownMaxPunishmentAt < ipSlowDownStartsAt \<le> 0\<close>, as
  the specification assumes of the two thresholds. The code computes in doubles, and
  \<open>fl\<close> is the rounding of each operation. For points below \<open>ipSlowDownStartsAt\<close>, with
  \<open>ratio = min 1 (fl ((start - points) / (start - max)))\<close>, the delay is
  \<open>max 100 (fl (ratio * ipSlowDownMaxS))\<close> and the connection cap is
  \<open>max 1 \<lfloor>fl (negativeBaseCap * fl (1 - ratio))\<rfloor>\<close>; for points at or above
  \<open>ipSlowDownStartsAt\<close> the delay is 0 and the cap is the base cap chosen by the sign
  of the points. For points at or below \<open>ipSlowDownMaxPunishmentAt\<close> no rounding
  occurs: the ratio is 1, the cap is exactly 1 and the delay is
  \<open>max 100 ipSlowDownMaxS\<close> (for \<open>ipSlowDownMaxS\<close> below \<open>2 ^ 53\<close> in magnitude, an integer
  that a double holds): it is \<open>ipSlowDownMaxS\<close> when that is at least 100 ms, and the
  floor of 100 ms otherwise. The delay of an admitted request is \<open>calculateSlowdown\<close>
  of the points of its record, and its record had fewer connections than
  \<open>calculateMaxConnections\<close> of those points.
\<close>

theorem punishment_curve:
  assumes "ipSlowDownMaxPunishmentAt cfg < ipSlowDownStartsAt cfg"
    and "ipSlowDownStartsAt cfg \<le> 0"
  shows
    "(pts < ipSlowDownStartsAt cfg \<longrightarrow>
        calculateSlowdown pts cfg =
          max 100 (fl (min 1 (fl (rat_of_int (ipSlowDownStartsAt cfg - pts) /
                                  rat_of_int (ipSlowDownStartsAt cfg - ipSlowDownMaxPunishmentAt cfg)))
                       * rat_of_int (ipSlowDownMaxS cfg))) \<and>
        calculateMaxConnections pts cfg =
          max 1 \<lfloor>fl (rat_of_int (maxSimultanousConnectionsNegativePerIP cfg) *
                     fl (1 - min 1 (fl (rat_of_int (ipSlowDownStartsAt cfg - pts) /
                                        rat_of_int (ipSlowDownStartsAt cfg - ipSlowDownMaxPunishmentAt cfg)))))\<rfloor>) \<and>
     (ipSlowDownStartsAt cfg \<le> pts \<longrightarrow>
        calculateSlowdown pts cfg = 0 \<and>
        calculateMaxConnections pts cfg =
          (if 0 \<le> pts then maxSimultanousConnectionsPerIP cfg
           else maxSimultanousConnectionsNegativePerIP cfg)) \<and>
     (pts \<le> ipSlowDownMaxPunishmentAt cfg \<longrightarrow>
        calculateMaxConnections pts cfg = 1) \<and>
     (pts \<le> ipSlowDownMaxPunishmentAt cfg \<and> \<bar>ipSlowDownMaxS cfg\<bar> < 9007199254740992 \<longrightarrow>
        calculateSlowdown pts cfg = max 100 (rat_of_int (ipSlowDownMaxS cfg))) \<and>
     (pts \<le> ipSlowDownMaxPunishmentAt cfg \<and> 100 \<le> ipSlowDownMaxS cfg \<and>
      ipSlowDownMaxS cfg < 9007199254740992 \<longrightarrow>
        calculateSlowdown pts cfg = rat_of_int (ipSlowDownMaxS cfg)) \<and>
     (fst (middleware s req nowMs rnd) = Admitted r d \<longrightarrow>
        d = calculateSlowdown (points (store (snd (observe s req nowMs rnd)) ! r)) (opts s) \<and>
        connections (store (snd (observe s req nowMs rnd)) ! r) <
          calculateMaxConnections (points (store (snd (observe s req nowMs rnd)) ! r)) (opts s))"
proof (intro conjI impI)
  assume lt: "pts < ipSlowDownStartsAt cfg"
  then show "calculateSlowdown pts cfg =
          max 100 (fl (min 1 (fl (rat_of_int (ipSlowDownStartsAt cfg - pts) /
                                  rat_of_int (ipSlowDownStartsAt cfg - ipSlowDownMaxPunishmentAt cfg)))
                       * rat_of_int (ipSlowDownMaxS cfg)))"
    by (simp only: calculateSlowdown_def slowdownRatio_eq [OF assms(1) lt]) simp
  from lt assms(2) have "pts < 0" by simp
  with lt show "calculateMaxConnections pts cfg =
          max 1 \<lfloor>fl (rat_of_int (maxSimultanousConnectionsNegativePerIP cfg) *
                     fl (1 - min 1 (fl (rat_of_int (ipSlowDownStartsAt cfg - pts) /
                                        rat_of_int (ipSlowDownStartsAt cfg - ipSlowDownMaxPunishmentAt cfg)))))\<rfloor>"
    by (simp only: calculateMaxConnections_def slowdownRatio_eq [OF assms(1) lt] Let_def) simp
next
  assume "ipSlowDownStartsAt cfg \<le> pts"
  then show "calculateSlowdown pts cfg = 0"
    and "calculateMaxConnections pts cfg =
          (if 0 \<le> pts then maxSimultanousConnectionsPerIP cfg
           else maxSimultanousConnectionsNegativePerIP cfg)"
    by (simp_all add: calculateSlowdown_def calculateMaxConnections_def)
next
  assume le: "pts \<le> ipSlowDownMaxPunishmentAt cfg"
  with assms(1) have lt: "pts < ipSlowDownStartsAt cfg" by simp
  from lt show "calculateMaxConnections pts cfg = 1"
    by (simp add: calculateMaxConnections_def slowdownRatio_saturated [OF assms(1) le] fl_zero)
next
  assume a: "pts \<le> ipSlowDownMaxPunishmentAt cfg \<and> \<bar>ipSlowDownMaxS cfg\<bar> < 9007199254740992"
  with assms(1) have lt: "pts < ipSlowDownStartsAt cfg" by simp
  from a have "fl (rat_of_int (ipSlowDownMaxS cfg)) = rat_of_int (ipSlowDownMaxS cfg)"
    by (intro fl_of_int) simp
  with lt a show "calculateSlowdown pts cfg = max 100 (rat_of_int (ipSlowDownMaxS cfg))"
    by (simp add: calculateSlowdown_def slowdownRatio_saturated [OF assms(1)])
next
  assume a: "pts \<le> ipSlowDownMaxPunishmentAt cfg \<and> 100 \<le> ipSlowDownMaxS cfg \<and>
      ipSlowDownMaxS cfg < 9007199254740992"
  with assms(1) have lt: "pts < ipSlowDownStartsAt cfg" by simp
  from a have "\<bar>ipSlowDownMaxS cfg\<bar> < 9007199254740992" by simp
  then have f: "fl (rat_of_int (ipSlowDownMaxS cfg)) = rat_of_int (ipSlowDownMaxS cfg)"
    by (rule fl_of_int)
  from a have "(100::rat) \<le> rat_of_int (ipSlowDownMaxS cfg)"
    by (metis of_int_le_iff of_int_numeral)
  with lt a f show "calculateSlowdown pts cfg = rat_of_int (ipSlowDownMaxS cfg)"
    by (simp add: calculateSlowdown_def slowdownRatio_saturated [OF assms(1)])
next
  assume a: "fst (middleware s req nowMs rnd) = Admitted r d"
  show "d = calculateSlowdown (points (store (snd (observe s req nowMs rnd)) ! r)) (opts s)"
    using a by (rule middleware_Admitted(2))
  show "connections (store (snd (observe s req nowMs rnd)) ! r) <
          calculateMaxConnections (points (store (snd (observe s req nowMs rnd)) ! r)) (opts s)"
    using a by (rule middleware_Admitted(3))
qed

text \<open>
  The theorem at the default configuration, at four scores: halfway down the curve,
  where the ratio \<open>1 / 2\<close> is a double, at full punishment, above the curve, and at
  \<open>- 420000\<close> points, where the ratio \<open>4 / 5\<close> is rounded.
\<close>

theorem punishment_curve_witness:
  "calculateSlowdown (- 300000) (defaultOptions ''Too many requests'') = 2500 \<and>
   calculateMaxConnections (- 300000) (defaultOptions ''Too many requests'') = 5 \<and>
   calculateSlowdown (- 500000) (defaultOptions ''Too many requests'') = 5000 \<and>
   calculateMaxConnections (- 500000) (defaultOptions ''Too many requests'') = 1 \<and>
   calculateSlowdown (- 5) (defaultOptions ''Too many requests'') = 0 \<and>
   calculateMaxConnections (- 5) (defaultOptions ''Too many requests'') = 10 \<and>
   calculateSlowdown (- 420000) (defaultOptions ''Too many requests'') = 4000 \<and>
   calculateMaxConnections (- 420000) (defaultOptions ''Too many requests'') = 1"
  using punishment_curve [of "defaultOptions ''Too many requests''" "- 300000"]
    punishment_curve [of "defaultOptions ''Too many requests''" "- 500000"]
    punishment_curve [of "defaultOptions ''Too many requests''" "- 5"]
    punishment_curve [of "defaultOptions ''Too many requests''" "- 420000"]
  by (simp add: defaultOptions_def fl_zero fl_values fl_four_fifths fl_four_fifths_complement
      fl_four_fifths_delay floor_below_two)

text \<open>
  The claim as stated promises a delay of \<open>ipSlowDownMaxS\<close> at
  \<open>ipSlowDownMaxPunishmentAt\<close>. With \<open>ipSlowDownMaxS = 50\<close> and the default thresholds
  the delay at \<open>- 500000\<close> points is 100 ms, and an address brought to \<open>- 500000\<close>
  points has its next request admitted with a delay of 100 ms.

  The claim's formula for the cap, read in exact arithmetic, gives 2 at \<open>- 420000\<close>
  points under the default configuration: the ratio is \<open>4 / 5\<close> and
  \<open>\<lfloor>10 * (1 - 4 / 5)\<rfloor> = 2\<close>. The code's cap is 1: the quotient is rounded up to the
  double next to \<open>4 / 5\<close>, and ten times its difference from 1 is the double just below
  2. The delay there is 4000 ms in both readings.
\<close>

theorem punishment_curve_counterexample:
  "ipSlowDownMaxPunishmentAt cfgSlow = - 500000 \<and>
   ipSlowDownMaxS cfgSlow = 50 \<and>
   calculateSlowdown (- 500000) cfgSlow = 100 \<and>
   points (store enginePunished ! 0) = - 500000 \<and>
   opts enginePunished = cfgSlow \<and>
   fst (middleware enginePunished reqA 1000000 rnd0) = Admitted 0 100 \<and>
   calculateMaxConnections (- 420000) (defaultOptions ''Too many requests'') = 1 \<and>
   max 1 \<lfloor>rat_of_int (maxSimultanousConnectionsNegativePerIP (defaultOptions ''Too many requests'')) *
          (1 - min 1 (rat_of_int (- 100000 - (- 420000)) /
                      rat_of_int (- 100000 - (- 500000))))\<rfloor> = (2::int) \<and>
   calculateSlowdown (- 420000) (defaultOptions ''Too many requests'') = 4000"
proof -
  let ?cfg = "defaultOptions ''Too many requests''"
  have slow: "calculateSlowdown (- 500000) cfgSlow = 100"
    by (simp add: calculateSlowdown_def slowdownRatio_def cfgSlow_def cfg2_def defaultOptions_def
        fl_values)
  have ratio: "slowdownRatio (- 420000) ?cfg = 3602879701896397 / 4503599627370496"
    by (simp add: slowdownRatio_def defaultOptions_def fl_four_fifths)
  have fields: "ipSlowDownStartsAt ?cfg = - 100000" "ipSlowDownMaxS ?cfg = 5000"
    "maxSimultanousConnectionsNegativePerIP ?cfg = 10"
    by (simp_all add: defaultOptions_def)
  have cap: "calculateMaxConnections (- 420000) ?cfg = 1"
    by (simp add: calculateMaxConnections_def ratio fl_four_fifths_complement floor_below_two
        fields)
  have "\<lfloor>2 :: rat\<rfloor> = 2"
    by simp
  then have exact: "max 1 \<lfloor>rat_of_int (maxSimultanousConnectionsNegativePerIP ?cfg) *
          (1 - min 1 (rat_of_int (- 100000 - (- 420000)) /
                      rat_of_int (- 100000 - (- 500000))))\<rfloor> = (2::int)"
    by (simp add: defaultOptions_def)
  have delay: "calculateSlowdown (- 420000) ?cfg = 4000"
    by (simp add: calculateSlowdown_def ratio fl_four_fifths_delay fields)
  from slow cap exact delay show ?thesis
    by (simp only: enginePunished_eval simp_thms)
qed

section \<open>Window rollover\<close>

text \<open>
  Claim C2. In every per-address window update, for the minute window and for the
  10-second window, with \<open>boundary period t = \<lceil>t / period\<rceil>\<close>: if the boundary of the
  new timestamp is the boundary of \<open>lastSeenMs\<close> plus one, the previous counter takes
  the value of the current counter and the current counter becomes 0; if it is larger
  than that, both counters become 0; if the boundary is unchanged, neither counter
  changes. The middleware applies this update to the record of a tracked address on
  every call, before it stamps \<open>lastSeenMs\<close>.
\<close>

theorem window_rollover:
  "(boundary 60000 nowMs = boundary 60000 (lastSeenMs d) + 1 \<longrightarrow>
      reqInPrevMin (updateTimeWindows d nowMs) = reqInCurrentMin d \<and>
      reqInCurrentMin (updateTimeWindows d nowMs) = 0) \<and>
   (boundary 60000 (lastSeenMs d) + 1 < boundary 60000 nowMs \<longrightarrow>
      reqInPrevMin (updateTimeWindows d nowMs) = 0 \<and>
      reqInCurrentMin (updateTimeWindows d nowMs) = 0) \<and>
   (boundary 60000 nowMs = boundary 60000 (lastSeenMs d) \<longrightarrow>
      reqInPrevMin (updateTimeWindows d nowMs) = reqInPrevMin d \<and>
      reqInCurrentMin (updateTimeWindows d nowMs) = reqInCurrentMin d) \<and>
   (boundary 10000 nowMs = boundary 10000 (lastSeenMs d) + 1 \<longrightarrow>
      reqInPrev10Sec (updateTimeWindows d nowMs) = reqInCurrent10Sec d \<and>
      reqInCurrent10Sec (updateTimeWindows d nowMs) = 0) \<and>
   (boundary 10000 (lastSeenMs d) + 1 < boundary 10000 nowMs \<longrightarrow>
      reqInPrev10Sec (updateTimeWindows d nowMs) = 0 \<and>
      reqInCurrent10Sec (updateTimeWindows d nowMs) = 0) \<and>
   (boundary 10000 nowMs = boundary 10000 (lastSeenMs d) \<longrightarrow>
      reqInPrev10Sec (updateTimeWindows d nowMs) = reqInPrev10Sec d \<and>
      reqInCurrent10Sec (updateTimeWindows d nowMs) = reqInCurrent10Sec d) \<and>
   (map_of (ipData s) (getClientIp req) = Some r \<and> r < length (store s) \<longrightarrow>
      store (snd (observe s req nowMs rnd)) ! r =
        (updateTimeWindows (store s ! r) nowMs)\<lparr>lastSeenMs := nowMs\<rparr>)"
  by (simp add: updateTimeWindows_def Let_def observe_found)

text \<open>
  A record last seen at 1000000 ms and updated at 1061000 ms: one minute boundary and
  seven 10-second boundaries later. Updated at 1000000 ms again, nothing changes.
\<close>

theorem window_rollover_witness:
  "boundary 60000 1061000 = boundary 60000 (lastSeenMs d0) + 1 \<and>
   reqInPrevMin (updateTimeWindows d0 1061000) = 7 \<and>
   reqInCurrentMin (updateTimeWindows d0 1061000) = 0 \<and>
   boundary 10000 (lastSeenMs d0) + 1 < boundary 10000 1061000 \<and>
   reqInPrev10Sec (updateTimeWindows d0 1061000) = 0 \<and>
   reqInCurrent10Sec (updateTimeWindows d0 1061000) = 0 \<and>
   boundary 10000 1000000 = boundary 10000 (lastSeenMs d0) \<and>
   reqInPrev10Sec (updateTimeWindows d0 1000000) = 2 \<and>
   reqInCurrent10Sec (updateTimeWindows d0 1000000) = 4"
  using window_rollover [of 1061000 d0] window_rollover [of 1000000 d0]
  by (simp add: boundary_def d0_def)

section \<open>Global counters\<close>

text \<open>
  Claim C3, as amended. On every request the global 1-second window is rolled by
  \<open>updateGlobalStats\<close>: when \<open>\<lceil>now / 1000\<rceil>\<close> differs from \<open>\<lceil>prevSecStartMs / 1000\<rceil>\<close>, the
  previous counter takes the value of the current counter, whatever the number of
  periods that elapsed, the current counter and the negative-address counter become 0,
  \<open>prevSecStartMs\<close> takes the old \<open>currentSecStartMs\<close> and \<open>currentSecStartMs\<close> becomes
  \<open>now\<close>; when the two boundaries agree nothing changes. The previous counter and
  the two timestamps that a call of the middleware leaves are the ones of this
  update, whether the call admits or rejects. The global counters have no minute
  window.
\<close>

theorem global_rollover:
  "(boundary 1000 nowMs \<noteq> boundary 1000 (prevSecStartMs g) \<longrightarrow>
      updateGlobalStats g nowMs =
        \<lparr> reqInCurrentSec = 0, reqInPrevSec = reqInCurrentSec g,
          prevSecStartMs = currentSecStartMs g, currentSecStartMs = nowMs,
          negativeReqInCurrentSec = 0 \<rparr>) \<and>
   (boundary 1000 nowMs = boundary 1000 (prevSecStartMs g) \<longrightarrow>
      updateGlobalStats g nowMs = g) \<and>
   globalStats (snd (observe s req nowMs rnd)) = updateGlobalStats (globalStats s) nowMs \<and>
   reqInPrevSec (globalStats (snd (middleware s req nowMs rnd))) =
     reqInPrevSec (updateGlobalStats (globalStats s) nowMs) \<and>
   prevSecStartMs (globalStats (snd (middleware s req nowMs rnd))) =
     prevSecStartMs (updateGlobalStats (globalStats s) nowMs) \<and>
   currentSecStartMs (globalStats (snd (middleware s req nowMs rnd))) =
     currentSecStartMs (updateGlobalStats (globalStats s) nowMs)"
  by (simp add: updateGlobalStats_def Let_def observe_frame middleware_prev)

text \<open>
  Five requests counted in the second that started at 1000 ms: the counters rolled at
  10000 ms, and left alone at 1000 ms.
\<close>

theorem global_rollover_witness:
  "updateGlobalStats \<lparr> reqInCurrentSec = 5, reqInPrevSec = 0, prevSecStartMs = 1000,
       currentSecStartMs = 1000, negativeReqInCurrentSec = 0 \<rparr> 10000 =
     \<lparr> reqInCurrentSec = 0, reqInPrevSec = 5, prevSecStartMs = 1000,
       currentSecStartMs = 10000, negativeReqInCurrentSec = 0 \<rparr> \<and>
   updateGlobalStats \<lparr> reqInCurrentSec = 5, reqInPrevSec = 0, prevSecStartMs = 1000,
       currentSecStartMs = 1000, negativeReqInCurrentSec = 0 \<rparr> 1000 =
     \<lparr> reqInCurrentSec = 5, reqInPrevSec = 0, prevSecStartMs = 1000,
       currentSecStartMs = 1000, negativeReqInCurrentSec = 0 \<rparr>"
  using global_rollover [of 10000 "\<lparr> reqInCurrentSec = 5, reqInPrevSec = 0, prevSecStartMs = 1000,
       currentSecStartMs = 1000, negativeReqInCurrentSec = 0 \<rparr>"]
    global_rollover [of 1000 "\<lparr> reqInCurrentSec = 5, reqInPrevSec = 0, prevSecStartMs = 1000,
       currentSecStartMs = 1000, negativeReqInCurrentSec = 0 \<rparr>"]
  by (simp add: boundary_def)

text \<open>
  The claim as stated resets the previous counter to 0 after an idle gap. With the
  same counters and the next request nine seconds later, more than one period has
  elapsed and the previous counter becomes 5.
\<close>

theorem global_rollover_counterexample:
  "boundary 1000 (prevSecStartMs \<lparr> reqInCurrentSec = 5, reqInPrevSec = 0, prevSecStartMs = 1000,
       currentSecStartMs = 1000, negativeReqInCurrentSec = 0 \<rparr>) + 1 < boundary 1000 10000 \<and>
   reqInPrevSec (updateGlobalStats \<lparr> reqInCurrentSec = 5, reqInPrevSec = 0, prevSecStartMs = 1000,
       currentSecStartMs = 1000, negativeReqInCurrentSec = 0 \<rparr> 10000) = 5"
  by (simp add: updateGlobalStats_def boundary_def)

section \<open>Eviction\<close>

text \<open>
  Claim C4. The slot for an unseen address is found with at most two random probes.
  The first probed slot is taken unless its occupant is protected, that is, unless
  the slot holds an address that has a record with points in \<open>[-50000, 50000]\<close> seen
  less than 300000 ms ago; an empty slot, an occupant without a record, an occupant
  outside the band and a stale occupant are all taken at once. After a protected
  first probe the second random slot is taken whatever it holds, being the final
  attempt. Each probe is \<open>\<lfloor>random * size\<rfloor>\<close>, a slot of the array. The insertion
  writes the new address into the slot found and deletes the record of the address it
  held.
\<close>

theorem eviction_policy:
  "findEvictableIndex mon ipd st nowMs rnd =
     (if spec_protected mon ipd st nowMs (randomIndex (rnd 0) (length mon))
      then randomIndex (rnd 1) (length mon)
      else randomIndex (rnd 0) (length mon)) \<and>
   (spec_protected mon ipd st nowMs i \<longleftrightarrow>
      (\<exists>a r. js_get mon i = Some a \<and> a \<noteq> [] \<and> map_of ipd a = Some r \<and>
             - 50000 \<le> points (st ! r) \<and> points (st ! r) \<le> 50000 \<and>
             nowMs - lastSeenMs (st ! r) < 300000)) \<and>
   (isRandom rnd \<and> mon \<noteq> [] \<longrightarrow> findEvictableIndex mon ipd st nowMs rnd < length mon) \<and>
   monitoredIps (snd (addIpToMonitoring addr s nowMs rnd)) =
     js_set (monitoredIps s)
       (findEvictableIndex (monitoredIps s) (ipData s) (store s) nowMs rnd) (Some addr) \<and>
   (js_get (monitoredIps s)
      (findEvictableIndex (monitoredIps s) (ipData s) (store s) nowMs rnd) = Some a \<and>
    a \<noteq> [] \<and> a \<noteq> addr \<longrightarrow>
      map_of (ipData (snd (addIpToMonitoring addr s nowMs rnd))) a = None)"
proof (intro conjI impI)
  show "findEvictableIndex mon ipd st nowMs rnd =
     (if spec_protected mon ipd st nowMs (randomIndex (rnd 0) (length mon))
      then randomIndex (rnd 1) (length mon)
      else randomIndex (rnd 0) (length mon))"
    by (simp add: findEvictableIndex_spec spec_evictable_def)
  show "spec_protected mon ipd st nowMs i \<longleftrightarrow>
      (\<exists>a r. js_get mon i = Some a \<and> a \<noteq> [] \<and> map_of ipd a = Some r \<and>
             - 50000 \<le> points (st ! r) \<and> points (st ! r) \<le> 50000 \<and>
             nowMs - lastSeenMs (st ! r) < 300000)"
    by (auto simp: spec_protected_def split: option.splits)
next
  assume a: "isRandom rnd \<and> mon \<noteq> []"
  then have "max 1 (length mon) = length mon"
    by (cases mon) simp_all
  with a show "findEvictableIndex mon ipd st nowMs rnd < length mon"
    using findEvictableIndex_bound [of rnd mon ipd st nowMs] by simp
next
  show "monitoredIps (snd (addIpToMonitoring addr s nowMs rnd)) =
     js_set (monitoredIps s)
       (findEvictableIndex (monitoredIps s) (ipData s) (store s) nowMs rnd) (Some addr)"
    by (simp add: addIpToMonitoring_def Let_def)
next
  assume "js_get (monitoredIps s)
      (findEvictableIndex (monitoredIps s) (ipData s) (store s) nowMs rnd) = Some a \<and>
    a \<noteq> [] \<and> a \<noteq> addr"
  then show "map_of (ipData (snd (addIpToMonitoring addr s nowMs rnd))) a = None"
    by (simp add: addIpToMonitoring_deletes)
qed

text \<open>
  A table of two slots with \<open>192.168.1.1\<close> in slot 0, seen at 1000000 ms with 0 points.
  At 1000500 ms the occupant is protected and the second probe, slot 1, is taken; at
  1400000 ms it is stale and slot 0 is taken.
\<close>

theorem eviction_policy_witness:
  "isRandom rnd0Half \<and> monitoredIps (engineA cfg2) \<noteq> [] \<and>
   spec_protected (monitoredIps (engineA cfg2)) (ipData (engineA cfg2)) (store (engineA cfg2))
     1000500 0 \<and>
   findEvictableIndex (monitoredIps (engineA cfg2)) (ipData (engineA cfg2)) (store (engineA cfg2))
     1000500 rnd0Half = 1 \<and>
   \<not> spec_protected (monitoredIps (engineA cfg2)) (ipData (engineA cfg2)) (store (engineA cfg2))
     1400000 0 \<and>
   findEvictableIndex (monitoredIps (engineA cfg2)) (ipData (engineA cfg2)) (store (engineA cfg2))
     1400000 rnd0Half = 0"
proof -
  have r: "isRandom rnd0Half"
    by (simp add: isRandom_def rnd0Half_def upt_rec)
  have i: "randomIndex (rnd0Half 0) 2 = 0" "randomIndex (rnd0Half 1) 2 = 1"
    by (simp_all add: randomIndex_def rnd0Half_def)
  have m: "monitoredIps (engineA cfg2) \<noteq> []" "length (monitoredIps (engineA cfg2)) = 2"
    by (simp_all add: engineA_eval)
  have p: "spec_protected (monitoredIps (engineA cfg2)) (ipData (engineA cfg2))
      (store (engineA cfg2)) 1000500 0"
    by (simp add: engineA_eval spec_protected_def js_get_def)
  have q: "\<not> spec_protected (monitoredIps (engineA cfg2)) (ipData (engineA cfg2))
      (store (engineA cfg2)) 1400000 0"
    by (simp add: engineA_eval spec_protected_def js_get_def)
  show ?thesis
    using r i m p q
      eviction_policy [of "monitoredIps (engineA cfg2)" "ipData (engineA cfg2)"
        "store (engineA cfg2)" 1000500 rnd0Half 0]
      eviction_policy [of "monitoredIps (engineA cfg2)" "ipData (engineA cfg2)"
        "store (engineA cfg2)" 1400000 rnd0Half 0]
    by simp
qed

section \<open>Scoring of completed requests\<close>

text \<open>
  Claim C5. \<open>calculatePoints\<close> classifies the status code in the order 2xx, 3xx, 400,
  401, 404, any other 4xx, 5xx, anything else (0 points). The completion hook of an
  admitted request adds \<open>calculatePoints status + checkExcessiveUsage record\<close> to the
  points of its record, once per call, and the admission call itself changes the
  points of no record.
\<close>

theorem scoring:
  "(200 \<le> c \<and> c < 300 \<longrightarrow> calculatePoints c cfg = pointsFor20x cfg) \<and>
   (300 \<le> c \<and> c < 400 \<longrightarrow> calculatePoints c cfg = pointsFor30x cfg) \<and>
   calculatePoints 400 cfg = pointsFor400 cfg \<and>
   calculatePoints 401 cfg = pointsFor401 cfg \<and>
   calculatePoints 404 cfg = pointsFor404 cfg \<and>
   (400 \<le> c \<and> c < 500 \<and> c \<noteq> 400 \<and> c \<noteq> 401 \<and> c \<noteq> 404 \<longrightarrow>
      calculatePoints c cfg = pointsFor40x cfg) \<and>
   (500 \<le> c \<and> c < 600 \<longrightarrow> calculatePoints c cfg = pointsFor50x cfg) \<and>
   (c < 200 \<or> 600 \<le> c \<longrightarrow> calculatePoints c cfg = 0) \<and>
   (r < length (store s) \<longrightarrow>
      points (store (res_send s r c) ! r) =
        points (store s ! r) +
          (calculatePoints c (opts s) + checkExcessiveUsage (store s ! r) (opts s))) \<and>
   (r < length (store s) \<longrightarrow>
      points (store (snd (middleware s req nowMs rnd)) ! r) = points (store s ! r))"
  by (simp add: calculatePoints_def res_send_def Let_def middleware_points)

text \<open>
  The default point values, and a 404 on a record with 0 points: \<open>- 100\<close> points.
\<close>

theorem scoring_witness:
  "calculatePoints 200 cfg2 = 1 \<and> calculatePoints 302 cfg2 = 0 \<and>
   calculatePoints 400 cfg2 = - 10000 \<and> calculatePoints 401 cfg2 = - 10000 \<and>
   calculatePoints 404 cfg2 = - 100 \<and> calculatePoints 403 cfg2 = - 10 \<and>
   calculatePoints 503 cfg2 = - 20 \<and> calculatePoints 101 cfg2 = 0 \<and>
   points (store (engineA cfg2) ! 0) = 0 \<and>
   points (store (res_send (engineA cfg2) 0 404) ! 0) = - 100 \<and>
   points (store (snd (middleware (engineA cfg2) reqA 1000000 rnd0)) ! 0) = 0"
proof -
  have e: "0 < length (store (engineA cfg2))" "points (store (engineA cfg2) ! 0) = 0"
    "opts (engineA cfg2) = cfg2"
    "checkExcessiveUsage (store (engineA cfg2) ! 0) cfg2 = 0"
    by (simp_all add: engineA_eval checkExcessiveUsage_def calculate10SecReqPerSec_def
        cfg2_fields)
  show ?thesis
    using e scoring [of 200 cfg2 0 "engineA cfg2" reqA 1000000 rnd0]
      scoring [of 302 cfg2 0 "engineA cfg2" reqA 1000000 rnd0]
      scoring [of 403 cfg2 0 "engineA cfg2" reqA 1000000 rnd0]
      scoring [of 503 cfg2 0 "engineA cfg2" reqA 1000000 rnd0]
      scoring [of 101 cfg2 0 "engineA cfg2" reqA 1000000 rnd0]
      scoring [of 404 cfg2 0 "engineA cfg2" reqA 1000000 rnd0]
    by (simp add: cfg2_fields)
qed

section \<open>Capacity\<close>

text \<open>
  After any sequence of admission calls, completions and manual adjustments on a
  freshly created engine, the number of tracked records is at most
  \<open>max 1 ipMonitorSize\<close>: at most \<open>ipMonitorSize\<close> whenever that is 1 or more. An
  insertion deletes the occupant of the chosen slot from the map before it adds the
  new address.
\<close>

theorem table_bounded:
  assumes "createPlastron cfg now1 now2 = Inr s0" and "list_all validEvent evs"
  shows "totalMonitoredIps (run s0 evs) \<le> max 1 (ipMonitorSize cfg) \<and>
         (1 \<le> ipMonitorSize cfg \<longrightarrow> totalMonitoredIps (run s0 evs) \<le> ipMonitorSize cfg) \<and>
         (\<forall>s addr a nowMs rnd.
            js_get (monitoredIps s)
              (findEvictableIndex (monitoredIps s) (ipData s) (store s) nowMs rnd) = Some a \<and>
            a \<noteq> [] \<and> a \<noteq> addr \<longrightarrow>
            map_of (ipData (snd (addIpToMonitoring addr s nowMs rnd))) a = None)"
proof -
  from assms(1) have "wf s0" and "opts s0 = cfg"
    by (simp_all add: wf_createPlastron)
  with assms(2) have "wf (run s0 evs)" and "opts (run s0 evs) = cfg"
    using wf_run [of s0 evs] by simp_all
  then have "totalMonitoredIps (run s0 evs) \<le> max 1 (ipMonitorSize cfg)"
    using wf_size [of "run s0 evs"] by (simp add: totalMonitoredIps_def)
  then show ?thesis
    using addIpToMonitoring_deletes by auto
qed

text \<open>Three addresses on two slots: two records are tracked.\<close>

theorem table_bounded_witness:
  "createPlastron cfg2 1000000 1000000 = Inr (fresh cfg2) \<and>
   list_all validEvent
     [Call reqA 1000000 rnd0, Call reqB 1000000 rndHalf, Call reqC 1000001 rnd0] \<and>
   totalMonitoredIps
     (run (fresh cfg2)
        [Call reqA 1000000 rnd0, Call reqB 1000000 rndHalf, Call reqC 1000001 rnd0]) \<le> 2"
proof -
  have v: "list_all validEvent
     [Call reqA 1000000 rnd0, Call reqB 1000000 rndHalf, Call reqC 1000001 rnd0]"
    by (simp add: isRandom_rnd)
  show ?thesis
    using v createPlastron_fresh(1) table_bounded [OF createPlastron_fresh(1) v]
    by (simp add: cfg2_fields)
qed

text \<open>
  Claim C6 bounds the number of tracked records by \<open>ipMonitorSize\<close> for every sequence
  of admission calls, and the theorem above proves the bound for every capacity of 1
  or more. At \<open>ipMonitorSize = 0\<close> the code exceeds it: the slot array is empty,
  \<open>findEvictableIndex\<close> returns 0, the insertion writes slot 0 and so extends the
  array, and after one request one record is tracked.
\<close>

theorem table_capacity_zero:
  "createPlastron cfg0 1000000 1000000 = Inr (fresh cfg0) \<and>
   list_all validEvent [Call reqA 1000000 rnd0] \<and>
   ipMonitorSize cfg0 = 0 \<and>
   totalMonitoredIps (run (fresh cfg0) [Call reqA 1000000 rnd0]) = 1"
proof -
  have "totalMonitoredIps (run (fresh cfg0) [Call reqA 1000000 rnd0]) = 1"
    by code_simp
  moreover have "ipMonitorSize cfg0 = 0"
    by (simp add: cfg0_def)
  ultimately show ?thesis
    by (simp add: createPlastron_fresh isRandom_rnd)
qed

section \<open>Rejections\<close>

text \<open>
  In \<^verbatim>\<open>src/dist/plastron.js\<close> a call is rejected exactly when one of the four checks
  fires on the state after the windows were rolled: the global rate check, the global
  negative-address check, the per-address rate check or the connection check. Every
  rejection answers with status 429 and the configured message as the \<open>error\<close> field
  of its body. A rejection counts nothing: the state it leaves is the state after the
  rolling of the windows, and the global counters are the rolled ones.
\<close>

theorem rejection_paths:
  "(fst (middleware s req nowMs rnd) = Rejected 429 (rateLimitMessage (opts s)) \<longleftrightarrow>
      globalRateExceeded (opts s) (updateGlobalStats (globalStats s) nowMs) nowMs \<or>
      globalNegativeExceeded (opts s) (updateGlobalStats (globalStats s) nowMs)
        (store (snd (observe s req nowMs rnd)) ! fst (observe s req nowMs rnd)) \<or>
      ipRateExceeded (opts s)
        (store (snd (observe s req nowMs rnd)) ! fst (observe s req nowMs rnd)) \<or>
      connectionsExceeded (opts s)
        (store (snd (observe s req nowMs rnd)) ! fst (observe s req nowMs rnd))) \<and>
   (\<forall>c m. fst (middleware s req nowMs rnd) = Rejected c m \<longrightarrow>
      c = 429 \<and> m = rateLimitMessage (opts s) \<and>
      snd (middleware s req nowMs rnd) = snd (observe s req nowMs rnd) \<and>
      globalStats (snd (middleware s req nowMs rnd)) = updateGlobalStats (globalStats s) nowMs)"
proof (intro conjI allI impI iffI)
  assume "fst (middleware s req nowMs rnd) = Rejected 429 (rateLimitMessage (opts s))"
  then show "globalRateExceeded (opts s) (updateGlobalStats (globalStats s) nowMs) nowMs \<or>
      globalNegativeExceeded (opts s) (updateGlobalStats (globalStats s) nowMs)
        (store (snd (observe s req nowMs rnd)) ! fst (observe s req nowMs rnd)) \<or>
      ipRateExceeded (opts s)
        (store (snd (observe s req nowMs rnd)) ! fst (observe s req nowMs rnd)) \<or>
      connectionsExceeded (opts s)
        (store (snd (observe s req nowMs rnd)) ! fst (observe s req nowMs rnd))"
    using middleware_admits(1) [of s nowMs req rnd] by auto
next
  assume "globalRateExceeded (opts s) (updateGlobalStats (globalStats s) nowMs) nowMs \<or>
      globalNegativeExceeded (opts s) (updateGlobalStats (globalStats s) nowMs)
        (store (snd (observe s req nowMs rnd)) ! fst (observe s req nowMs rnd)) \<or>
      ipRateExceeded (opts s)
        (store (snd (observe s req nowMs rnd)) ! fst (observe s req nowMs rnd)) \<or>
      connectionsExceeded (opts s)
        (store (snd (observe s req nowMs rnd)) ! fst (observe s req nowMs rnd))"
  then show "fst (middleware s req nowMs rnd) = Rejected 429 (rateLimitMessage (opts s))"
    by (simp add: middleware_rejects)
next
  fix c m
  assume rej: "fst (middleware s req nowMs rnd) = Rejected c m"
  then have chk: "globalRateExceeded (opts s) (updateGlobalStats (globalStats s) nowMs) nowMs \<or>
      globalNegativeExceeded (opts s) (updateGlobalStats (globalStats s) nowMs)
        (store (snd (observe s req nowMs rnd)) ! fst (observe s req nowMs rnd)) \<or>
      ipRateExceeded (opts s)
        (store (snd (observe s req nowMs rnd)) ! fst (observe s req nowMs rnd)) \<or>
      connectionsExceeded (opts s)
        (store (snd (observe s req nowMs rnd)) ! fst (observe s req nowMs rnd))"
    using middleware_admits(1) [of s nowMs req rnd] by auto
  have m: "middleware s req nowMs rnd =
     (Rejected 429 (rateLimitMessage (opts s)), snd (observe s req nowMs rnd))"
    using chk by (rule middleware_rejects)
  with rej show "c = 429" and "m = rateLimitMessage (opts s)"
    and "snd (middleware s req nowMs rnd) = snd (observe s req nowMs rnd)"
    and "globalStats (snd (middleware s req nowMs rnd)) = updateGlobalStats (globalStats s) nowMs"
    by (simp_all add: observe_frame)
qed

text \<open>
  A second request in the second of an admitted one, under a global cap of 1: the
  global rate check fires.
\<close>

theorem rejection_paths_witness:
  "globalRateExceeded (opts (engineA cfg2cap))
     (updateGlobalStats (globalStats (engineA cfg2cap)) 1000000) 1000000 \<and>
   fst (middleware (engineA cfg2cap) reqB 1000000 rnd0) =
     Rejected 429 (rateLimitMessage (opts (engineA cfg2cap))) \<and>
   snd (middleware (engineA cfg2cap) reqB 1000000 rnd0) =
     snd (observe (engineA cfg2cap) reqB 1000000 rnd0)"
proof -
  have h: "globalRateExceeded (opts (engineA cfg2cap))
     (updateGlobalStats (globalStats (engineA cfg2cap)) 1000000) 1000000"
    by code_simp
  from h rejection_paths [of "engineA cfg2cap" reqB 1000000 rnd0]
  have r: "fst (middleware (engineA cfg2cap) reqB 1000000 rnd0) =
     Rejected 429 (rateLimitMessage (opts (engineA cfg2cap)))"
    by blast
  with rejection_paths [of "engineA cfg2cap" reqB 1000000 rnd0]
  have "snd (middleware (engineA cfg2cap) reqB 1000000 rnd0) =
     snd (observe (engineA cfg2cap) reqB 1000000 rnd0)"
    by blast
  with h r show ?thesis
    by blast
qed

text \<open>
  Claim C7 has every rejection path answer with status 429 and the configured message,
  which the theorem above proves, and add one to a global counter of the rejections
  of the minute. \<^verbatim>\<open>src/src/types.ts\<close> declares that counter,
  \<open>rateLimited429InCurrentMin\<close>, and the later build keeps it: each of its four
  rejections is a call of \<open>createRateLimitResponse\<close> (lines 452-466 of
  \<^verbatim>\<open>src/README.md\<close>; lemma \<open>later_rejection\<close>). \<^verbatim>\<open>src/dist/plastron.js\<close> does not count:
  under a global cap of 1 the second request of a second is rejected, and the global
  counters after the call are the global counters before it.
\<close>

theorem rejection_uncounted:
  "fst (middleware (engineA cfg2cap) reqB 1000000 rnd0) = Rejected 429 ''Rate limit exceeded'' \<and>
   globalStats (snd (middleware (engineA cfg2cap) reqB 1000000 rnd0)) =
     globalStats (engineA cfg2cap)"
  by code_simp

section \<open>Manual adjustment\<close>

text \<open>
  Claim C8. \<open>addPointsToIp\<close> on an address that has a record adds the delta to the
  points of that record and returns true; the tracked count is unchanged. On an
  address without a record it returns false and leaves the state as it was, so no
  record is created. A request in place of the address is resolved by
  \<open>getClientIp\<close>.
\<close>

theorem addPoints_known_unknown:
  "(wf s \<and> getIpData s addr = Some d \<longrightarrow>
      fst (addPointsToIp s (IpString addr) delta) = True \<and>
      getIpData (snd (addPointsToIp s (IpString addr) delta)) addr =
        Some (d\<lparr>points := points d + delta\<rparr>) \<and>
      totalMonitoredIps (snd (addPointsToIp s (IpString addr) delta)) = totalMonitoredIps s) \<and>
   (getIpData s addr = None \<longrightarrow> addPointsToIp s (IpString addr) delta = (False, s)) \<and>
   addPointsToIp s (Req req) delta = addPointsToIp s (IpString (getClientIp req)) delta"
proof (intro conjI impI)
  assume a: "wf s \<and> getIpData s addr = Some d"
  then obtain r where r: "map_of (ipData s) addr = Some r" and d: "d = store s ! r"
    by (auto simp: getIpData_def)
  from a r have lt: "r < length (store s)"
    by (simp add: wf_lookup)
  show "fst (addPointsToIp s (IpString addr) delta) = True"
    by (simp add: addPointsToIp_def r)
  show "getIpData (snd (addPointsToIp s (IpString addr) delta)) addr =
        Some (d\<lparr>points := points d + delta\<rparr>)"
    using lt by (simp add: addPointsToIp_def getIpData_def r d)
  show "totalMonitoredIps (snd (addPointsToIp s (IpString addr) delta)) = totalMonitoredIps s"
    by (simp add: addPointsToIp_def totalMonitoredIps_def r)
next
  assume "getIpData s addr = None"
  then show "addPointsToIp s (IpString addr) delta = (False, s)"
    by (simp add: addPointsToIp_def getIpData_def)
next
  show "addPointsToIp s (Req req) delta = addPointsToIp s (IpString (getClientIp req)) delta"
    by (simp add: addPointsToIp_def)
qed

text \<open>
  An adjustment of a tracked address, of an address never seen, and of
  \<open>192.168.1.1\<close> after its eviction.
\<close>

theorem addPoints_known_unknown_witness:
  "wf (engineA cfg2) \<and>
   getIpData (engineA cfg2) ''192.168.1.1'' =
     Some \<lparr> ip = ''192.168.1.1'', index = 0, lastSeenMs = 1000000, points = 0,
            connections = 1, reqInCurrentMin = 1, reqInPrevMin = 0,
            reqInCurrent10Sec = 1, reqInPrev10Sec = 0 \<rparr> \<and>
   fst (addPointsToIp (engineA cfg2) (IpString ''192.168.1.1'') 10000) = True \<and>
   getIpData (snd (addPointsToIp (engineA cfg2) (IpString ''192.168.1.1'') 10000)) ''192.168.1.1'' =
     Some \<lparr> ip = ''192.168.1.1'', index = 0, lastSeenMs = 1000000, points = 10000,
            connections = 1, reqInCurrentMin = 1, reqInPrevMin = 0,
            reqInCurrent10Sec = 1, reqInPrev10Sec = 0 \<rparr> \<and>
   getIpData (engineA cfg2) ''192.168.1.9'' = None \<and>
   addPointsToIp (engineA cfg2) (IpString ''192.168.1.9'') 10000 = (False, engineA cfg2) \<and>
   getIpData engineABC ''192.168.1.1'' = None \<and>
   addPointsToIp engineABC (IpString ''192.168.1.1'') 10000 = (False, engineABC)"
proof -
  have w: "wf (engineA cfg2)"
    by code_simp
  have g: "getIpData (engineA cfg2) ''192.168.1.1'' =
     Some \<lparr> ip = ''192.168.1.1'', index = 0, lastSeenMs = 1000000, points = 0,
            connections = 1, reqInCurrentMin = 1, reqInPrevMin = 0,
            reqInCurrent10Sec = 1, reqInPrev10Sec = 0 \<rparr>"
    by (simp add: engineA_eval getIpData_def)
  have n: "getIpData (engineA cfg2) ''192.168.1.9'' = None"
    by (simp add: engineA_eval getIpData_def)
  have n': "getIpData engineABC ''192.168.1.1'' = None"
    by (simp add: engineABC_eval getIpData_def)
  show ?thesis
    using w g n n'
      addPoints_known_unknown [of "engineA cfg2" "''192.168.1.1''" _ 10000]
      addPoints_known_unknown [of "engineA cfg2" "''192.168.1.9''" _ 10000]
      addPoints_known_unknown [of engineABC "''192.168.1.1''" _ 10000]
    by simp
qed

section \<open>The global cap of one request per second\<close>

text \<open>
  Claim C9. On a freshly created engine with \<open>maxRequestRatePerSec = 1\<close> and per-address
  caps that are positive, as the default ones are, take two requests from distinct
  addresses whose timestamps lie in the same second, that is, in the same 1-second
  window of the window tracker: \<open>boundary 1000\<close>, which is \<open>\<lceil>t / 1000\<rceil>\<close>, is the same for
  both. The first is admitted and the second is rejected with status 429 and the
  configured message, whatever the clock read when the engine was created and whatever
  the random draws are.
\<close>

theorem global_cap_one:
  assumes cr: "createPlastron cfg now1 now2 = Inr s0"
    and cap: "maxRequestRatePerSec cfg = 1"
    and ipcap: "0 < maxReqPerSecPerIP cfg"
    and conncap: "0 < maxSimultanousConnectionsPerIP cfg"
    and distinct: "getClientIp reqA \<noteq> getClientIp reqB"
    and same: "boundary 1000 nowA = boundary 1000 nowB"
  shows "(\<exists>r d. fst (middleware s0 reqA nowA rndA) = Admitted r d) \<and>
         fst (middleware (snd (middleware s0 reqA nowA rndA)) reqB nowB rndB) =
           Rejected 429 (rateLimitMessage cfg)"
proof -
  from cr have s0: "opts s0 = cfg" "ipData s0 = []" "store s0 = []"
    "reqInCurrentSec (globalStats s0) = 0" "reqInPrevSec (globalStats s0) = 0"
    by (auto simp: createPlastron_def split: if_splits)
  let ?G = "updateGlobalStats (globalStats s0) nowA"
  let ?e = "store (snd (observe s0 reqA nowA rndA)) ! fst (observe s0 reqA nowA rndA)"
  have G: "reqInCurrentSec ?G = 0" "reqInPrevSec ?G = 0"
    using s0 by (simp_all add: updateGlobalStats_def Let_def)
  have e: "points ?e = 0" "connections ?e = 0" "reqInCurrent10Sec ?e = 0" "reqInPrev10Sec ?e = 0"
    using observe_fresh [OF s0(2,3), of reqA nowA rndA] by simp_all
  have c1: "\<not> globalRateExceeded (opts s0) ?G nowA"
    using G by (simp add: globalRateExceeded_def calculateCurrentReqPerSec_def Let_def s0 cap)
  have c2: "\<not> globalNegativeExceeded (opts s0) ?G ?e"
    using e by (simp add: globalNegativeExceeded_def)
  have c3: "\<not> ipRateExceeded (opts s0) ?e"
    using e ipcap by (simp add: ipRateExceeded_def calculate10SecReqPerSec_def Let_def s0)
  have c4: "\<not> connectionsExceeded (opts s0) ?e"
    using e calculateMaxConnections_pos [OF conncap, of 0]
    by (simp add: connectionsExceeded_def s0)
  note adm = middleware_admits [OF c1 c2 c3 c4]
  let ?s1 = "snd (middleware s0 reqA nowA rndA)"
  have "calculateCurrentReqPerSec (updateGlobalStats (globalStats ?s1) nowB) nowB = 1"
    unfolding adm(2) using s0(4,5) same by (rule second_request_rate)
  then have "globalRateExceeded (opts ?s1) (updateGlobalStats (globalStats ?s1) nowB) nowB"
    by (simp add: globalRateExceeded_def middleware_table s0 cap)
  then have "fst (middleware ?s1 reqB nowB rndB) = Rejected 429 (rateLimitMessage (opts ?s1))"
    by (simp add: middleware_rejects)
  with adm(1) show ?thesis
    by (simp add: middleware_table s0)
qed

text \<open>Requests at 1000100 ms and 1000900 ms, from \<open>192.168.1.1\<close> and \<open>192.168.1.2\<close>.\<close>

theorem global_cap_one_witness:
  "createPlastron cfg2cap 1000000 1000000 = Inr (fresh cfg2cap) \<and>
   maxRequestRatePerSec cfg2cap = 1 \<and>
   0 < maxReqPerSecPerIP cfg2cap \<and>
   0 < maxSimultanousConnectionsPerIP cfg2cap \<and>
   getClientIp reqA \<noteq> getClientIp reqB \<and>
   boundary 1000 1000100 = boundary 1000 1000900 \<and>
   fst (middleware (fresh cfg2cap) reqA 1000100 rnd0) = Admitted 0 0 \<and>
   fst (middleware (snd (middleware (fresh cfg2cap) reqA 1000100 rnd0)) reqB 1000900 rndHalf) =
     Rejected 429 ''Rate limit exceeded''"
proof -
  have c: "maxRequestRatePerSec cfg2cap = 1" "0 < maxReqPerSecPerIP cfg2cap"
    "0 < maxSimultanousConnectionsPerIP cfg2cap"
    "rateLimitMessage cfg2cap = ''Rate limit exceeded''"
    by (simp_all add: cfg2cap_def cfg2_def defaultOptions_def)
  have d: "getClientIp reqA \<noteq> getClientIp reqB"
    by (simp add: getClientIp_def truthy_def reqA_def reqB_def)
  have b: "boundary 1000 1000100 = boundary 1000 1000900"
    by (simp add: boundary_def)
  have a: "fst (middleware (fresh cfg2cap) reqA 1000100 rnd0) = Admitted 0 0"
    by code_simp
  show ?thesis
    using c d b a createPlastron_fresh(2)
      global_cap_one [OF createPlastron_fresh(2) c(1) c(2) c(3) d b, of rnd0 rndHalf]
    by simp
qed

section \<open>Requests without an address\<close>

text \<open>
  Claim C10. A request with neither \<^verbatim>\<open>req.ip\<close> nor a remote address of its socket is
  keyed under \<open>''*error*''\<close>. Two such requests, one after the other, use the same
  record: the second finds the record the first was counted on, adds no entry to the
  table and allocates no record, and an admission of either returns that record.
\<close>

theorem unattributable_shared:
  assumes "unattributable req1" and "unattributable req2"
  shows "getClientIp req1 = ''*error*'' \<and> getClientIp req2 = ''*error*'' \<and>
    (\<exists>r. getIpData (snd (middleware s req1 now1 rnd1)) ''*error*'' =
            Some (store (snd (middleware s req1 now1 rnd1)) ! r) \<and>
         getIpData (snd (middleware (snd (middleware s req1 now1 rnd1)) req2 now2 rnd2)) ''*error*'' =
            Some (store (snd (middleware (snd (middleware s req1 now1 rnd1)) req2 now2 rnd2)) ! r) \<and>
         (\<forall>r' d. fst (middleware s req1 now1 rnd1) = Admitted r' d \<longrightarrow> r' = r) \<and>
         (\<forall>r' d. fst (middleware (snd (middleware s req1 now1 rnd1)) req2 now2 rnd2) = Admitted r' d
                 \<longrightarrow> r' = r)) \<and>
    ipData (snd (middleware (snd (middleware s req1 now1 rnd1)) req2 now2 rnd2)) =
      ipData (snd (middleware s req1 now1 rnd1)) \<and>
    length (store (snd (middleware (snd (middleware s req1 now1 rnd1)) req2 now2 rnd2))) =
      length (store (snd (middleware s req1 now1 rnd1)))"
proof -
  let ?s1 = "snd (middleware s req1 now1 rnd1)"
  let ?s2 = "snd (middleware ?s1 req2 now2 rnd2)"
  let ?r = "fst (observe s req1 now1 rnd1)"
  have k1: "getClientIp req1 = ''*error*''" and k2: "getClientIp req2 = ''*error*''"
    using assms by (simp_all add: getClientIp_unattributable)
  have l1: "map_of (ipData ?s1) ''*error*'' = Some ?r"
    using observe_lookup [of s req1 now1 rnd1] by (simp add: middleware_table k1)
  then have "map_of (ipData ?s1) (getClientIp req2) = Some ?r"
    by (simp add: k2)
  then have ob2: "observe ?s1 req2 now2 rnd2 =
      (?r, ?s1\<lparr> globalStats := updateGlobalStats (globalStats ?s1) now2,
                  store := (store ?s1)[?r := (updateTimeWindows (store ?s1 ! ?r) now2)\<lparr>lastSeenMs := now2\<rparr>] \<rparr>)"
    by (rule observe_found)
  have t2: "ipData ?s2 = ipData ?s1" "length (store ?s2) = length (store ?s1)"
    by (simp_all add: middleware_table ob2)
  have a1: "\<forall>r' d. fst (middleware s req1 now1 rnd1) = Admitted r' d \<longrightarrow> r' = ?r"
    using middleware_Admitted_fst by blast
  have a2: "\<forall>r' d. fst (middleware ?s1 req2 now2 rnd2) = Admitted r' d \<longrightarrow> r' = ?r"
    using middleware_Admitted_fst [of ?s1 req2 now2 rnd2] ob2 by simp
  have g1: "getIpData ?s1 ''*error*'' = Some (store ?s1 ! ?r)"
    by (simp add: getIpData_def l1)
  have g2: "getIpData ?s2 ''*error*'' = Some (store ?s2 ! ?r)"
    by (simp add: getIpData_def t2 l1)
  show ?thesis
    using k1 k2 g1 g2 a1 a2 t2 by blast
qed

text \<open>
  A request without \<^verbatim>\<open>req.ip\<close> and without a remote address, then one whose
  \<^verbatim>\<open>req.ip\<close> is the empty string and which has no socket: both are counted on the one
  record of \<open>''*error*''\<close>, which ends with two connections and two requests in the
  minute.
\<close>

theorem unattributable_shared_witness:
  "unattributable reqNoIp \<and> unattributable reqEmptyIp \<and>
   getClientIp reqNoIp = ''*error*'' \<and> getClientIp reqEmptyIp = ''*error*'' \<and>
   ipData (snd (middleware (snd (middleware (fresh cfg2) reqNoIp 1000000 rnd0))
                  reqEmptyIp 1000500 rnd0)) =
     ipData (snd (middleware (fresh cfg2) reqNoIp 1000000 rnd0)) \<and>
   length (store (snd (middleware (snd (middleware (fresh cfg2) reqNoIp 1000000 rnd0))
                         reqEmptyIp 1000500 rnd0))) =
     length (store (snd (middleware (fresh cfg2) reqNoIp 1000000 rnd0))) \<and>
   getIpData (snd (middleware (snd (middleware (fresh cfg2) reqNoIp 1000000 rnd0))
                     reqEmptyIp 1000500 rnd0)) ''*error*'' =
     Some \<lparr> ip = ''*error*'', index = 0, lastSeenMs = 1000500, points = 0, connections = 2,
            reqInCurrentMin = 2, reqInPrevMin = 0, reqInCurrent10Sec = 1,
            reqInPrev10Sec = 1 \<rparr>"
proof -
  have h1: "unattributable reqNoIp" and h2: "unattributable reqEmptyIp"
    by (simp_all add: unattributable_def truthy_def reqNoIp_def reqEmptyIp_def)
  have g: "getIpData (snd (middleware (snd (middleware (fresh cfg2) reqNoIp 1000000 rnd0))
                     reqEmptyIp 1000500 rnd0)) ''*error*'' =
     Some \<lparr> ip = ''*error*'', index = 0, lastSeenMs = 1000500, points = 0, connections = 2,
            reqInCurrentMin = 2, reqInPrevMin = 0, reqInCurrent10Sec = 1,
            reqInPrev10Sec = 1 \<rparr>"
    by code_simp
  show ?thesis
    using h1 h2 g
      unattributable_shared [OF h1 h2, where s = "fresh cfg2" and ?now1.0 = 1000000
        and ?rnd1.0 = rnd0 and ?now2.0 = 1000500 and ?rnd2.0 = rnd0]
    by simp
qed

end
